theory Spec2Isabelle
  imports Complex_Main "HOL-Library.Word"
begin

section \<open>Tensor entries\<close>

text \<open>
  The program computes on 32-bit floating-point tensors. An entry is modelled as an exact
  real number or one of the three special values of IEEE arithmetic: rounding and overflow
  are left out, the results of dividing by zero are kept. There is a single zero (no
  signed zero): dividing a non-zero number by zero gives the infinity of the numerator's sign.
\<close>

datatype fl = Fin real | PInf | NInf | NaN

fun fneg :: "fl \<Rightarrow> fl" where
  "fneg (Fin a) = Fin (- a)"
| "fneg PInf = NInf"
| "fneg NInf = PInf"
| "fneg NaN = NaN"

fun fadd :: "fl \<Rightarrow> fl \<Rightarrow> fl" where
  "fadd (Fin a) (Fin b) = Fin (a + b)"
| "fadd NaN y = NaN"
| "fadd x NaN = NaN"
| "fadd PInf NInf = NaN"
| "fadd NInf PInf = NaN"
| "fadd PInf y = PInf"
| "fadd x PInf = PInf"
| "fadd NInf y = NInf"
| "fadd x NInf = NInf"

definition fsub :: "fl \<Rightarrow> fl \<Rightarrow> fl" where
  "fsub x y = fadd x (fneg y)"

fun fmul :: "fl \<Rightarrow> fl \<Rightarrow> fl" where
  "fmul (Fin a) (Fin b) = Fin (a * b)"
| "fmul NaN y = NaN"
| "fmul x NaN = NaN"
| "fmul (Fin a) PInf = (if a = 0 then NaN else if 0 < a then PInf else NInf)"
| "fmul (Fin a) NInf = (if a = 0 then NaN else if 0 < a then NInf else PInf)"
| "fmul PInf (Fin b) = (if b = 0 then NaN else if 0 < b then PInf else NInf)"
| "fmul NInf (Fin b) = (if b = 0 then NaN else if 0 < b then NInf else PInf)"
| "fmul PInf PInf = PInf"
| "fmul PInf NInf = NInf"
| "fmul NInf PInf = NInf"
| "fmul NInf NInf = PInf"

fun fdiv :: "fl \<Rightarrow> fl \<Rightarrow> fl" where
  "fdiv (Fin a) (Fin b) =
     (if b = 0 then (if a = 0 then NaN else if 0 < a then PInf else NInf) else Fin (a / b))"
| "fdiv NaN y = NaN"
| "fdiv x NaN = NaN"
| "fdiv (Fin a) PInf = Fin 0"
| "fdiv (Fin a) NInf = Fin 0"
| "fdiv PInf (Fin b) = (if 0 \<le> b then PInf else NInf)"
| "fdiv NInf (Fin b) = (if 0 \<le> b then NInf else PInf)"
| "fdiv PInf PInf = NaN"
| "fdiv PInf NInf = NaN"
| "fdiv NInf PInf = NaN"
| "fdiv NInf NInf = NaN"

fun fexp :: "fl \<Rightarrow> fl" where
  "fexp (Fin a) = Fin (exp a)"
| "fexp PInf = PInf"
| "fexp NInf = Fin 0"
| "fexp NaN = NaN"

fun fln :: "fl \<Rightarrow> fl" where
  "fln (Fin a) = (if 0 < a then Fin (ln a) else if a = 0 then NInf else NaN)"
| "fln PInf = PInf"
| "fln NInf = NaN"
| "fln NaN = NaN"

fun fsqrt :: "fl \<Rightarrow> fl" where
  "fsqrt (Fin a) = (if 0 \<le> a then Fin (sqrt a) else NaN)"
| "fsqrt PInf = PInf"
| "fsqrt NInf = NaN"
| "fsqrt NaN = NaN"

text \<open>\<^verbatim>\<open>torch.relu\<close> keeps a NaN; \<^verbatim>\<open>t > 0\<close> is false on a NaN.\<close>

fun frelu :: "fl \<Rightarrow> fl" where
  "frelu (Fin a) = Fin (max 0 a)"
| "frelu PInf = PInf"
| "frelu NInf = Fin 0"
| "frelu NaN = NaN"

fun fpos :: "fl \<Rightarrow> bool" where
  "fpos (Fin a) = (0 < a)"
| "fpos PInf = True"
| "fpos NInf = False"
| "fpos NaN = False"

text \<open>Maximum and minimum as the reductions \<^verbatim>\<open>max()\<close> and \<^verbatim>\<open>min()\<close> take them: a NaN wins.\<close>

fun fmax :: "fl \<Rightarrow> fl \<Rightarrow> fl" where
  "fmax (Fin a) (Fin b) = Fin (max a b)"
| "fmax NaN y = NaN"
| "fmax x NaN = NaN"
| "fmax PInf y = PInf"
| "fmax x PInf = PInf"
| "fmax NInf y = y"
| "fmax x NInf = x"

fun fmin :: "fl \<Rightarrow> fl \<Rightarrow> fl" where
  "fmin (Fin a) (Fin b) = Fin (min a b)"
| "fmin NaN y = NaN"
| "fmin x NaN = NaN"
| "fmin NInf y = NInf"
| "fmin x NInf = NInf"
| "fmin PInf y = y"
| "fmin x PInf = x"


section \<open>Tensors\<close>

text \<open>
  A vector is the list of its entries, a matrix the list of its rows. A matrix without rows
  does not record its column count, so the operations that need it (product, transpose,
  column means) take the count as an argument.
\<close>

type_synonym vec = "fl list"
type_synonym mat = "fl list list"

definition is_mat :: "nat \<Rightarrow> nat \<Rightarrow> 'a list list \<Rightarrow> bool" where
  "is_mat r c m = (length m = r \<and> list_all (\<lambda>row. length row = c) m)"

definition fsum :: "fl list \<Rightarrow> fl" where
  "fsum xs = foldl fadd (Fin 0) xs"

definition fmean :: "fl list \<Rightarrow> fl" where
  "fmean xs = fdiv (fsum xs) (Fin (real (length xs)))"

definition dot :: "vec \<Rightarrow> vec \<Rightarrow> fl" where
  "dot xs ys = fsum (map2 fmul xs ys)"

definition col :: "mat \<Rightarrow> nat \<Rightarrow> vec" where
  "col m j = map (\<lambda>row. row ! j) m"

definition matmul :: "nat \<Rightarrow> mat \<Rightarrow> mat \<Rightarrow> mat" where
  "matmul c a b = map (\<lambda>row. map (\<lambda>j. dot row (col b j)) [0..<c]) a"

definition mtranspose :: "nat \<Rightarrow> mat \<Rightarrow> mat" where
  "mtranspose c m = map (col m) [0..<c]"

definition mmap :: "(fl \<Rightarrow> fl) \<Rightarrow> mat \<Rightarrow> mat" where
  "mmap f m = map (map f) m"

definition madd :: "mat \<Rightarrow> mat \<Rightarrow> mat" where
  "madd a b = map2 (map2 fadd) a b"

definition msub :: "mat \<Rightarrow> mat \<Rightarrow> mat" where
  "msub a b = map2 (map2 fsub) a b"

definition mmul :: "mat \<Rightarrow> mat \<Rightarrow> mat" where
  "mmul a b = map2 (map2 fmul) a b"

definition vadd :: "vec \<Rightarrow> vec \<Rightarrow> vec" where
  "vadd a b = map2 fadd a b"

definition add_rows :: "mat \<Rightarrow> vec \<Rightarrow> mat" where
  "add_rows m v = map (\<lambda>row. vadd row v) m"

definition smul :: "real \<Rightarrow> mat \<Rightarrow> mat" where
  "smul k m = mmap (fmul (Fin k)) m"

definition vsmul :: "real \<Rightarrow> vec \<Rightarrow> vec" where
  "vsmul k v = map (fmul (Fin k)) v"

definition mean_axis0 :: "nat \<Rightarrow> mat \<Rightarrow> vec" where
  "mean_axis0 c m = map (\<lambda>j. fmean (col m j)) [0..<c]"

text \<open>
  \<^verbatim>\<open>torch.std_mean(t)\<close> over all entries, with Bessel's correction: the divisor is
  \<open>max 0 (n - 1)\<close>, so a tensor of fewer than two entries has the standard deviation NaN.
\<close>

definition std_mean :: "mat \<Rightarrow> fl \<times> fl" where
  "std_mean m =
     (let xs = concat m;
          mean = fmean xs;
          dev = map (\<lambda>v. fmul (fsub v mean) (fsub v mean)) xs
      in (fsqrt (fdiv (fsum dev) (Fin (real (length xs - 1)))), mean))"

section \<open>Errors\<close>

datatype error = IndexError | ZeroDivisionError | ValueError | TypeError | RuntimeError

section \<open>Label encoding\<close>

definition eye :: "nat \<Rightarrow> mat" where
  "eye n = map (\<lambda>i. map (\<lambda>j. if i = j then Fin 1 else Fin 0) [0..<n]) [0..<n]"

text \<open>
  \<^verbatim>\<open>to_one_hot(x) = torch.eye(x.max() + 1)[x]\<close>. Labels are class indices (natural
  numbers); \<^verbatim>\<open>max()\<close> of an empty tensor raises. Every label is below \<open>max + 1\<close>, so the
  row lookup is always in range.
\<close>

definition to_one_hot :: "nat list \<Rightarrow> error + mat" where
  "to_one_hot x =
     (if x = [] then Inl RuntimeError
      else let e = eye (Max (set x) + 1) in Inr (map (\<lambda>i. e ! i) x))"

text \<open>
  The encoding the specification describes: one \<open>n\<close>-wide indicator vector per label, with a
  single 1 at the label's index and 0 elsewhere.
\<close>

definition indicator_rows :: "nat \<Rightarrow> nat list \<Rightarrow> mat" where
  "indicator_rows n x = map (\<lambda>v. map (\<lambda>j. if j = v then Fin 1 else Fin 0) [0..<n]) x"

section \<open>Forward pass\<close>

definition fmaxs :: "fl list \<Rightarrow> fl" where
  "fmaxs xs = (case xs of [] \<Rightarrow> NInf | x # rest \<Rightarrow> foldl fmax x rest)"

definition fmins :: "fl list \<Rightarrow> fl" where
  "fmins xs = (case xs of [] \<Rightarrow> PInf | x # rest \<Rightarrow> foldl fmin x rest)"

text \<open>
  Softmax and log-softmax over one row, computed as the library does: the row's maximum is
  subtracted first.
\<close>

definition softmax_row :: "vec \<Rightarrow> vec" where
  "softmax_row xs =
     (let m = fmaxs xs;
          es = map (\<lambda>v. fexp (fsub v m)) xs;
          s = fsum es
      in map (\<lambda>e. fdiv e s) es)"

definition log_softmax_row :: "vec \<Rightarrow> vec" where
  "log_softmax_row xs =
     (let m = fmaxs xs;
          s = fsum (map (\<lambda>v. fexp (fsub v m)) xs)
      in map (\<lambda>v. fsub (fsub v m) (fln s)) xs)"

definition activate :: "mat \<Rightarrow> mat" where
  "activate x = map softmax_row x"

definition hidden_activate :: "mat \<Rightarrow> mat" where
  "hidden_activate x = mmap frelu x"

text \<open>
  The parameters are the pair of weight matrices \<open>w = (w[0], w[1])\<close> and the pair of bias
  vectors \<open>b = (b[0], b[1])\<close>, one bias entry per column of the layer. A product or a
  sum of tensors whose dimensions do not fit raises; the dimension test is made once, before
  the computation.
\<close>

definition forward :: "mat \<Rightarrow> mat \<times> mat \<Rightarrow> vec \<times> vec \<Rightarrow> error + (mat \<times> mat \<times> mat \<times> mat)" where
  "forward x w b =
     (let n_in = length (fst w); n_h = length (fst b); n_out = length (snd b) in
      if \<not> (list_all (\<lambda>row. length row = n_in) x \<and> is_mat n_in n_h (fst w)
             \<and> is_mat n_h n_out (snd w))
      then Inl RuntimeError
      else
        let z_h = add_rows (matmul n_h x (fst w)) (fst b);
            y_h_hat = hidden_activate z_h;
            sm = std_mean y_h_hat;
            y_h_hat = mmap (\<lambda>v. fsub v (snd sm)) y_h_hat;
            y_h_hat = mmap (\<lambda>v. fdiv v (fst sm)) y_h_hat;
            z = add_rows (matmul n_out y_h_hat (snd w)) (snd b);
            y_hat = activate z
        in Inr (z_h, y_h_hat, z, y_hat))"

section \<open>Loss\<close>

text \<open>
  \<^verbatim>\<open>torch.nn.functional.cross_entropy(input, target)\<close> takes its input as logits (it
  applies log-softmax itself) and returns the mean over the batch. With a floating-point
  target of the input's shape the target rows are class probabilities; with an integer
  target they are class indices.
\<close>

definition cross_entropy_probs :: "mat \<Rightarrow> mat \<Rightarrow> fl" where
  "cross_entropy_probs input target =
     fmean (map2 (\<lambda>row t. fneg (dot t (log_softmax_row row))) input target)"

definition cross_entropy_index :: "mat \<Rightarrow> nat list \<Rightarrow> error + fl" where
  "cross_entropy_index input target =
     (if length input \<noteq> length target then Inl ValueError
      else if \<not> list_all2 (\<lambda>row t. t < length row) input target then Inl IndexError
      else Inr (fmean (map2 (\<lambda>row t. fneg (log_softmax_row row ! t)) input target)))"

section \<open>One training step\<close>

definition relu_mask :: "mat \<Rightarrow> mat" where
  "relu_mask z_h = mmap (\<lambda>v. if fpos v then Fin 1 else Fin 0) z_h"

definition msum :: "mat \<Rightarrow> fl" where
  "msum m = fsum (concat m)"

definition train_batch ::
  "mat \<Rightarrow> mat \<Rightarrow> mat \<times> mat \<Rightarrow> vec \<times> vec \<Rightarrow> real \<Rightarrow> int \<Rightarrow> real
     \<Rightarrow> error + ((mat \<times> mat) \<times> (vec \<times> vec) \<times> fl)" where
  "train_batch x y_true w b mu batch_size wd =
     (case forward x w b of
        Inl e \<Rightarrow> Inl e
      | Inr (z_h, y_h_hat, z, y_hat) \<Rightarrow>
          let n_in = length (fst w); n_h = length (fst b); n_out = length (snd b) in
          if \<not> (0 < length x \<and> 0 < n_h \<and> batch_size = int (length x)
                 \<and> is_mat (length x) n_out y_true)
          then Inl RuntimeError
          else
            let error = msub y_true y_hat;
                w_1_copy = smul (- 2 * wd) (snd w);
                w_0_copy = smul (- 2 * wd) (fst w);
                loss = fadd (cross_entropy_probs y_hat y_true)
                            (fmul (Fin wd) (msum (mmap (\<lambda>v. fmul v v) (snd w))));
                error_h = mmul (matmul n_h error (mtranspose n_out (snd w))) (relu_mask z_h);
                w1 = madd (snd w)
                       (smul mu (matmul n_out (mtranspose n_h y_h_hat)
                                   (replicate (nat batch_size) (mean_axis0 n_out error))));
                w1 = madd w1 (smul mu w_1_copy);
                b1 = vadd (snd b) (vsmul mu (mean_axis0 n_out error));
                w0 = madd (fst w)
                       (smul mu (matmul n_h (mtranspose n_in x)
                                   (replicate (nat batch_size) (mean_axis0 n_h error_h))));
                w0 = madd w0 (smul mu w_0_copy);
                b0 = vadd (fst b) (vsmul mu (mean_axis0 n_h error_h))
            in Inr ((w0, w1), (b0, b1), loss))"

text \<open>
  The update the specification words: the mean over the batch of the per-example outer
  products \<open>a\<^sub>k \<otimes> e\<^sub>k\<close>, and \<open>param += mu * (term + weight-decay term)\<close>.
\<close>

definition mean_outer :: "nat \<Rightarrow> nat \<Rightarrow> mat \<Rightarrow> mat \<Rightarrow> mat" where
  "mean_outer r c a e =
     map (\<lambda>i. map (\<lambda>j. fmean (map2 (\<lambda>arow erow. fmul (arow ! i) (erow ! j)) a e)) [0..<c]) [0..<r]"

definition spec_weight_update :: "mat \<Rightarrow> real \<Rightarrow> mat \<Rightarrow> real \<Rightarrow> mat" where
  "spec_weight_update w mu g wd = madd w (smul mu (madd g (smul (- 2 * wd) w)))"

section \<open>One epoch\<close>

text \<open>\<^verbatim>\<open>range(step * batch_size, (step + 1) * batch_size)\<close>, for a positive batch size.\<close>

definition batch_range :: "nat \<Rightarrow> int \<Rightarrow> nat list" where
  "batch_range step batch_size = [step * nat batch_size ..< (step + 1) * nat batch_size]"

definition select :: "'a list \<Rightarrow> nat list \<Rightarrow> 'a list" where
  "select xs batch = map (\<lambda>i. xs ! i) batch"

fun train_steps ::
  "mat \<Rightarrow> mat \<Rightarrow> real \<Rightarrow> int \<Rightarrow> real \<Rightarrow> nat list
     \<Rightarrow> (mat \<times> mat) \<times> (vec \<times> vec) \<times> fl list
     \<Rightarrow> error + ((mat \<times> mat) \<times> (vec \<times> vec) \<times> fl list)" where
  "train_steps data labels mu batch_size wd [] st = Inr st"
| "train_steps data labels mu batch_size wd (step # steps) (w, b, losses) =
     (let batch = batch_range step batch_size in
      if \<not> list_all (\<lambda>i. i < length data \<and> i < length labels) batch then Inl IndexError
      else
        case train_batch (select data batch) (select labels batch) w b mu batch_size wd of
          Inl e \<Rightarrow> Inl e
        | Inr (w', b', loss) \<Rightarrow>
            train_steps data labels mu batch_size wd steps (w', b', losses @ [loss]))"

text \<open>
  \<^verbatim>\<open>nsteps = data.shape[0] // batch_size\<close> is Python's floor division, which is \<open>div\<close> on
  \<open>int\<close>. \<^verbatim>\<open>collate(losses)\<close> reads \<^verbatim>\<open>losses[0]\<close>, so an epoch without a step raises.
\<close>

definition nsteps :: "nat \<Rightarrow> int \<Rightarrow> nat" where
  "nsteps n batch_size = nat (int n div batch_size)"

definition train_perceptron ::
  "mat \<Rightarrow> mat \<Rightarrow> mat \<times> mat \<Rightarrow> vec \<times> vec \<Rightarrow> real \<Rightarrow> int \<Rightarrow> real
     \<Rightarrow> error + ((mat \<times> mat) \<times> (vec \<times> vec) \<times> fl)" where
  "train_perceptron data labels w b mu batch_size wd =
     (if batch_size = 0 then Inl ZeroDivisionError
      else
        case train_steps data labels mu batch_size wd
               [0..<nsteps (length data) batch_size] (w, b, []) of
          Inl e \<Rightarrow> Inl e
        | Inr (w', b', losses) \<Rightarrow>
            if losses = [] then Inl IndexError else Inr (w', b', fmean losses))"

text \<open>The index lists of the batches of one epoch, in the order the loop takes them.\<close>

definition epoch_batches :: "nat \<Rightarrow> int \<Rightarrow> nat list list" where
  "epoch_batches n batch_size = map (\<lambda>step. batch_range step batch_size) [0..<nsteps n batch_size]"

text \<open>
  The loop of \<open>train_steps\<close> again, over the index lists themselves: what one epoch does
  with a given list of batches.
\<close>

fun train_over ::
  "mat \<Rightarrow> mat \<Rightarrow> real \<Rightarrow> int \<Rightarrow> real \<Rightarrow> nat list list
     \<Rightarrow> (mat \<times> mat) \<times> (vec \<times> vec) \<times> fl list
     \<Rightarrow> error + ((mat \<times> mat) \<times> (vec \<times> vec) \<times> fl list)" where
  "train_over data labels mu batch_size wd [] st = Inr st"
| "train_over data labels mu batch_size wd (batch # batches) (w, b, losses) =
     (if \<not> list_all (\<lambda>i. i < length data \<and> i < length labels) batch then Inl IndexError
      else
        case train_batch (select data batch) (select labels batch) w b mu batch_size wd of
          Inl e \<Rightarrow> Inl e
        | Inr (w', b', loss) \<Rightarrow>
            train_over data labels mu batch_size wd batches (w', b', losses @ [loss]))"

section \<open>Evaluation\<close>

text \<open>
  \<^verbatim>\<open>torch.max(t, dim=1)[1]\<close>: the index of the first maximal entry of a row, where a NaN
  counts as maximal. \<open>fl_le v best\<close> is the comparison \<^verbatim>\<open>v <= best\<close>, false on a NaN.
\<close>

fun fl_le :: "fl \<Rightarrow> fl \<Rightarrow> bool" where
  "fl_le (Fin a) (Fin b) = (a \<le> b)"
| "fl_le NaN y = False"
| "fl_le x NaN = False"
| "fl_le NInf y = True"
| "fl_le x PInf = True"
| "fl_le x y = False"

fun argmax_loop :: "fl \<Rightarrow> nat \<Rightarrow> nat \<Rightarrow> fl list \<Rightarrow> nat" where
  "argmax_loop best idx i [] = idx"
| "argmax_loop best idx i (v # vs) =
     (if \<not> fl_le v best then (if v = NaN then i else argmax_loop v i (Suc i) vs)
      else argmax_loop best idx (Suc i) vs)"

definition argmax_row :: "vec \<Rightarrow> nat" where
  "argmax_row xs = (case xs of [] \<Rightarrow> 0 | x # rest \<Rightarrow> argmax_loop x 0 0 (x # rest))"

definition correct_predictions :: "mat \<Rightarrow> nat list \<Rightarrow> nat" where
  "correct_predictions y_hat y = length (filter (\<lambda>(row, t). argmax_row row = t) (zip y_hat y))"

text \<open>\<^verbatim>\<open>range(0, n, step)\<close> for a step other than zero.\<close>

definition range_step :: "nat \<Rightarrow> int \<Rightarrow> nat list" where
  "range_step n step =
     (if step < 0 then [] else map (\<lambda>k. k * nat step) [0..<(n + nat step - 1) div nat step])"

fun evaluate_loop ::
  "mat \<Rightarrow> nat list \<Rightarrow> mat \<times> mat \<Rightarrow> vec \<times> vec \<Rightarrow> nat \<Rightarrow> nat list \<Rightarrow> nat \<times> fl list
     \<Rightarrow> error + (nat \<times> fl list)" where
  "evaluate_loop data labels w b batch_size [] acc = Inr acc"
| "evaluate_loop data labels w b batch_size (i # rest) (total_correct_predictions, loss) =
     (let x = take batch_size (drop i data);
          y = take batch_size (drop i labels)
      in case forward x w b of
           Inl e \<Rightarrow> Inl e
         | Inr (z_h, y_h_hat, z, y_hat) \<Rightarrow>
             (case cross_entropy_index y_hat y of
                Inl e \<Rightarrow> Inl e
              | Inr l \<Rightarrow>
                  evaluate_loop data labels w b batch_size rest
                    (total_correct_predictions + correct_predictions y_hat y, loss @ [l])))"

text \<open>
  \<^verbatim>\<open>range\<close> raises on a zero step; the accuracy is a Python division of two integers,
  which raises on an empty dataset; \<^verbatim>\<open>collate(loss)\<close> raises on an empty list.
\<close>

definition evaluate ::
  "mat \<Rightarrow> nat list \<Rightarrow> mat \<times> mat \<Rightarrow> vec \<times> vec \<Rightarrow> int \<Rightarrow> error + (real \<times> fl)" where
  "evaluate data labels w b batch_size =
     (if batch_size = 0 then Inl ValueError
      else
        case evaluate_loop data labels w b (nat batch_size)
               (range_step (length data) batch_size) (0, []) of
          Inl e \<Rightarrow> Inl e
        | Inr (total_correct_predictions, loss) \<Rightarrow>
            if length data = 0 then Inl ZeroDivisionError
            else if loss = [] then Inl IndexError
            else Inr (real total_correct_predictions / real (length data), fmean loss))"

section \<open>Data preparation\<close>

text \<open>
  An image is a grid of 8-bit pixels. \<^verbatim>\<open>imutils.rotate\<close> belongs to a library outside the
  repository and is a parameter of the model: \<open>rot angle img\<close>.
\<close>

type_synonym image = "8 word list list"

definition tensor_of :: "image \<Rightarrow> mat" where
  "tensor_of img = map (map (\<lambda>p. Fin (real (unat p)))) img"

text \<open>\<^verbatim>\<open>255 * torch.ones(size=(r, c))\<close>\<close>

definition fill :: "nat \<Rightarrow> nat \<Rightarrow> mat" where
  "fill r c = replicate r (replicate c (Fin 255))"

definition img_shifted_1 :: "mat \<Rightarrow> mat" where
  "img_shifted_1 tensor = fill 2 28 @ drop 2 tensor"

definition img_shifted_2 :: "mat \<Rightarrow> mat" where
  "img_shifted_2 tensor = take 26 tensor @ fill 2 28"

definition img_shifted_3 :: "mat \<Rightarrow> mat" where
  "img_shifted_3 tensor = map2 (@) (fill 28 2) (map (drop 2) tensor)"

definition img_shifted_4 :: "mat \<Rightarrow> mat" where
  "img_shifted_4 tensor = map2 (@) (map (take 26) tensor) (fill 28 2)"

text \<open>
  The concatenations raise unless the image has 28 columns (along the rows) and 28 rows
  (along the columns).
\<close>

definition augment :: "(int \<Rightarrow> image \<Rightarrow> image) \<Rightarrow> image \<Rightarrow> error + mat list" where
  "augment rot img =
     (let tensor = tensor_of img in
      if \<not> is_mat 28 28 img then Inl RuntimeError
      else Inr [img_shifted_1 tensor, img_shifted_2 tensor, img_shifted_3 tensor,
                img_shifted_4 tensor, tensor_of (rot 5 img), tensor_of (rot (- 5) img)])"

fun collect ::
  "(int \<Rightarrow> image \<Rightarrow> image) \<Rightarrow> bool \<Rightarrow> (image \<times> nat) list \<Rightarrow> error + (mat list \<times> nat list)" where
  "collect rot train [] = Inr ([], [])"
| "collect rot train ((img, label) # rest) =
     (case (if train then augment rot img else Inr []) of
        Inl e \<Rightarrow> Inl e
      | Inr extra \<Rightarrow>
          (case collect rot train rest of
             Inl e \<Rightarrow> Inl e
           | Inr (x_data, y_data) \<Rightarrow>
               Inr (tensor_of img # extra @ x_data,
                    label # (if train then replicate 6 label else []) @ y_data)))"

datatype loaded =
  Train_set mat "nat list" mat "fl \<times> fl"
| Test_set mat "nat list"

definition ncols :: "'a list list \<Rightarrow> nat" where
  "ncols m = (case m of [] \<Rightarrow> 0 | row # _ \<Rightarrow> length row)"

text \<open>Step (1) of the normalization: \<^verbatim>\<open>x -= x.min(); x /= maxi\<close>, with \<^verbatim>\<open>maxi = x.max()\<close> read before.\<close>

definition min_max_scale :: "mat \<Rightarrow> mat" where
  "min_max_scale x_data =
     (let maxi_data = fmaxs (concat x_data);
          x_data = mmap (\<lambda>v. fsub v (fmins (concat x_data))) x_data
      in mmap (\<lambda>v. fdiv v maxi_data) x_data)"

text \<open>Step (2): \<^verbatim>\<open>x -= mean_std[1]; x /= mean_std[0]\<close>.\<close>

definition standardize :: "fl \<times> fl \<Rightarrow> mat \<Rightarrow> mat" where
  "standardize mean_std x_data =
     (let x_data = mmap (\<lambda>v. fsub v (snd mean_std)) x_data
      in mmap (\<lambda>v. fdiv v (fst mean_std)) x_data)"

text \<open>
  \<^verbatim>\<open>load_dataset\<close>: the samples are collected (with the augmentation when \<open>train\<close>),
  stacked (\<^verbatim>\<open>collate\<close> reads the first element and \<^verbatim>\<open>torch.stack\<close> wants equal shapes),
  flattened and normalized. Without \<open>train\<close> and without a \<open>mean_std\<close> argument the lookup
  \<^verbatim>\<open>mean_std[1]\<close> on \<^verbatim>\<open>None\<close> raises. Pinning memory does not change a value and is left out.
\<close>

definition load_dataset ::
  "(int \<Rightarrow> image \<Rightarrow> image) \<Rightarrow> bool \<Rightarrow> (image \<times> nat) list \<Rightarrow> (fl \<times> fl) option \<Rightarrow> error + loaded" where
  "load_dataset rot train mnist mean_std =
     (case collect rot train mnist of
        Inl e \<Rightarrow> Inl e
      | Inr (x_data, y_data) \<Rightarrow>
          if x_data = [] then Inl IndexError
          else if \<not> list_all (is_mat (length (hd x_data)) (ncols (hd x_data))) x_data
          then Inl RuntimeError
          else
            let x_data = map concat x_data in
            if concat x_data = [] then Inl RuntimeError
            else
              let x_data = min_max_scale x_data in
              (case (if train then Some (std_mean x_data) else mean_std) of
                 None \<Rightarrow> Inl TypeError
               | Some mean_std \<Rightarrow>
                   let x_data = standardize mean_std x_data in
                   if train then
                     (case to_one_hot y_data of
                        Inl e \<Rightarrow> Inl e
                      | Inr y_data_labels \<Rightarrow> Inr (Train_set x_data y_data y_data_labels mean_std))
                   else Inr (Test_set x_data y_data)))"

section \<open>The training run\<close>

text \<open>
  The epoch loop of \<^verbatim>\<open>train\<close>: every 60th epoch scales the learning rate by 0.2, then one
  epoch of training and the two evaluations whose results are only printed. The state is the
  parameters and the learning rate.
\<close>

fun train_epochs ::
  "mat \<Rightarrow> nat list \<Rightarrow> mat \<Rightarrow> mat \<Rightarrow> nat list \<Rightarrow> int \<Rightarrow> int \<Rightarrow> real \<Rightarrow> nat list
     \<Rightarrow> (mat \<times> mat) \<times> (vec \<times> vec) \<times> real
     \<Rightarrow> error + ((mat \<times> mat) \<times> (vec \<times> vec) \<times> real)" where
  "train_epochs x_train y_train_labels y_train x_test y_test batch_size eval_batch_size wd [] st =
     Inr st"
| "train_epochs x_train y_train_labels y_train x_test y_test batch_size eval_batch_size wd
     (epoch # epochs) (weights, biases, mu) =
     (let mu = (if (epoch + 1) mod 60 = 0 then mu * 0.2 else mu) in
      case train_perceptron x_train y_train weights biases mu batch_size wd of
        Inl e \<Rightarrow> Inl e
      | Inr (weights, biases, loss) \<Rightarrow>
          (case evaluate x_test y_test weights biases eval_batch_size of
             Inl e \<Rightarrow> Inl e
           | Inr (accuracy_test, loss_test) \<Rightarrow>
               (case evaluate x_train y_train_labels weights biases eval_batch_size of
                  Inl e \<Rightarrow> Inl e
                | Inr (accuracy_train, loss_train) \<Rightarrow>
                    train_epochs x_train y_train_labels y_train x_test y_test batch_size
                      eval_batch_size wd epochs (weights, biases, mu))))"

text \<open>
  \<^verbatim>\<open>train\<close>, from the initial parameters (drawn at random by the source) and the two
  MNIST splits. The training set is loaded first; its \<open>mean_std\<close> is handed to the load of
  the test set. The result is the state when the loop exits.
\<close>

definition train ::
  "(int \<Rightarrow> image \<Rightarrow> image) \<Rightarrow> (image \<times> nat) list \<Rightarrow> (image \<times> nat) list
     \<Rightarrow> mat \<times> mat \<Rightarrow> vec \<times> vec \<Rightarrow> nat \<Rightarrow> real \<Rightarrow> int \<Rightarrow> int \<Rightarrow> real
     \<Rightarrow> error + ((mat \<times> mat) \<times> (vec \<times> vec) \<times> real)" where
  "train rot mnist_train mnist_test weights biases epochs mu batch_size eval_batch_size wd =
     (case load_dataset rot True mnist_train None of
        Inl e \<Rightarrow> Inl e
      | Inr (Test_set x y) \<Rightarrow> Inl ValueError
      | Inr (Train_set x_train y_train_labels y_train mean_std) \<Rightarrow>
          (case load_dataset rot False mnist_test (Some mean_std) of
             Inl e \<Rightarrow> Inl e
           | Inr (Train_set x y yl ms) \<Rightarrow> Inl ValueError
           | Inr (Test_set x_test y_test) \<Rightarrow>
               train_epochs x_train y_train_labels y_train x_test y_test batch_size
                 eval_batch_size wd [0..<epochs] (weights, biases, mu)))"

section \<open>Properties of the label encoding\<close>

lemma eye_row: "i < n \<Longrightarrow> eye n ! i = map (\<lambda>j. if j = i then Fin 1 else Fin 0) [0..<n]"
  by (auto simp: eye_def)

lemma to_one_hot_rows:
  "x \<noteq> [] \<Longrightarrow> to_one_hot x = Inr (indicator_rows (Max (set x) + 1) x)"
proof -
  assume ne: "x \<noteq> []"
  have "v \<in> set x \<Longrightarrow> v < Max (set x) + 1" for v
    by (simp add: less_Suc_eq_le)
  then have "map (\<lambda>i. eye (Max (set x) + 1) ! i) x = indicator_rows (Max (set x) + 1) x"
    unfolding indicator_rows_def by (intro map_cong refl) (simp add: eye_row)
  with ne show ?thesis by (simp add: to_one_hot_def Let_def)
qed

text \<open>
  Claim C10, as amended. For a non-empty label tensor, \<open>to_one_hot\<close> returns one indicator
  vector per label, with a single 1 at the label's index and 0 elsewhere, whose width is the
  largest label plus one. The width is 10 when the labels are in 0..9 and the label 9 occurs.
\<close>

theorem to_one_hot_width:
  "x \<noteq> [] \<Longrightarrow>
     to_one_hot x = Inr (indicator_rows (Max (set x) + 1) x)
     \<and> (list_all (\<lambda>v. v \<le> 9) x \<and> 9 \<in> set x \<longrightarrow> to_one_hot x = Inr (indicator_rows 10 x))"
proof -
  assume ne: "x \<noteq> []"
  have "Max (set x) = 9" if "list_all (\<lambda>v. v \<le> 9) x" "9 \<in> set x"
    using that by (intro Max_eqI) (auto simp: list_all_iff)
  then show ?thesis using to_one_hot_rows [OF ne] by auto
qed

text \<open>Witness for C10: the labels 3, 9, 0.\<close>

theorem to_one_hot_width_witness:
  "[3, 9, 0] \<noteq> ([] :: nat list) \<and> list_all (\<lambda>v. v \<le> 9) [3, 9, 0 :: nat] \<and> 9 \<in> set [3, 9, 0 :: nat]
   \<and> to_one_hot [3, 9, 0] = Inr (indicator_rows 10 [3, 9, 0])"
  using to_one_hot_width [of "[3, 9, 0]"] by simp

text \<open>
  Counterexample to C10 as stated: the labels 0, 1 are in 0..9, and their encoding is two
  entries wide, not ten.
\<close>

theorem to_one_hot_width_counterexample:
  "to_one_hot [0, 1] = Inr [[Fin 1, Fin 0], [Fin 0, Fin 1]]
   \<and> to_one_hot [0, 1] \<noteq> Inr (indicator_rows 10 [0, 1])"
  by (simp add: to_one_hot_def eye_def indicator_rows_def
        upt_rec [of _ "numeral _"] upt_rec [of _ "Suc _"])

section \<open>Properties of the epoch\<close>

lemma nsteps_pos: "0 < batch_size \<Longrightarrow> nsteps n batch_size = n div nat batch_size"
  by (simp add: nsteps_def nat_div_distrib)

lemma concat_ranges: "concat (map (\<lambda>step. [step * c ..< (step + 1) * c]) [0..<m]) = [0..<m * c]"
proof (induction m)
  case 0
  then show ?case by simp
next
  case (Suc m)
  have "[0..<m * c + c] = [0..<m * c] @ [m * c..<m * c + c]"
    by (rule upt_add_eq_append) simp
  with Suc show ?case by (simp add: add.commute)
qed

lemma train_steps_over:
  "train_steps data labels mu batch_size wd steps st =
   train_over data labels mu batch_size wd (map (\<lambda>step. batch_range step batch_size) steps) st"
proof (induction steps arbitrary: st)
  case Nil
  then show ?case by simp
next
  case (Cons step steps)
  obtain w b losses where st: "st = (w, b, losses)" by (cases st) auto
  show ?case unfolding st
    by (simp add: Cons.IH Let_def split: sum.splits prod.splits)
qed

lemma full_cover: "0 < c \<Longrightarrow> (set [0..<(n div c) * c] = {0..<n}) = (c dvd n)"
proof -
  assume c: "0 < (c::nat)"
  have "({0..<(n div c) * c} = {0..<n}) = ((n div c) * c = n)"
  proof
    assume "{0..<(n div c) * c} = {0..<n}"
    then have "card {0..<(n div c) * c} = card {0..<n}" by simp
    then show "(n div c) * c = n" by simp
  qed simp
  also have "\<dots> = (c dvd n)"
  proof
    assume "(n div c) * c = n"
    then show "c dvd n" using dvd_triv_right [of c "n div c"] by simp
  qed simp
  finally show ?thesis by simp
qed

text \<open>
  Claim C8, as amended. For a positive batch size, one epoch of \<open>train_perceptron\<close> runs
  \<open>train_batch\<close> over the batches \<open>epoch_batches\<close>, which depend on the dataset size and the
  batch size only (not on the parameters, the learning rate or the epoch): there are
  \<open>n div batch_size\<close> of them, batch \<open>k\<close> is the contiguous index range from
  \<open>k * batch_size\<close> to \<open>(k + 1) * batch_size\<close>, and together, in order, they are the indices
  below \<open>(n div batch_size) * batch_size\<close>, each once. The pass covers the whole dataset exactly
  when the batch size divides the dataset size; otherwise the last \<open>n mod batch_size\<close>
  examples are in no batch.
\<close>

theorem epoch_batches_partition:
  "0 < batch_size \<Longrightarrow>
     train_perceptron data labels w b mu batch_size wd =
       (case train_over data labels mu batch_size wd
               (epoch_batches (length data) batch_size) (w, b, []) of
          Inl e \<Rightarrow> Inl e
        | Inr (w', b', losses) \<Rightarrow>
            if losses = [] then Inl IndexError else Inr (w', b', fmean losses))
     \<and> length (epoch_batches n batch_size) = n div nat batch_size
     \<and> (\<forall>k < n div nat batch_size.
           epoch_batches n batch_size ! k = [k * nat batch_size ..< (k + 1) * nat batch_size])
     \<and> concat (epoch_batches n batch_size) = [0 ..< (n div nat batch_size) * nat batch_size]
     \<and> ((set (concat (epoch_batches n batch_size)) = {0..<n}) = (nat batch_size dvd n))"
proof -
  assume pos: "0 < batch_size"
  have c: "concat (epoch_batches n batch_size) = [0 ..< (n div nat batch_size) * nat batch_size]"
    unfolding epoch_batches_def batch_range_def nsteps_pos [OF pos] by (rule concat_ranges)
  have "train_perceptron data labels w b mu batch_size wd =
       (case train_over data labels mu batch_size wd
               (epoch_batches (length data) batch_size) (w, b, []) of
          Inl e \<Rightarrow> Inl e
        | Inr (w', b', losses) \<Rightarrow>
            if losses = [] then Inl IndexError else Inr (w', b', fmean losses))"
    using pos by (simp add: train_perceptron_def train_steps_over epoch_batches_def)
  moreover have "length (epoch_batches n batch_size) = n div nat batch_size"
    by (simp add: epoch_batches_def nsteps_pos [OF pos])
  moreover have "\<forall>k < n div nat batch_size.
           epoch_batches n batch_size ! k = [k * nat batch_size ..< (k + 1) * nat batch_size]"
    by (simp add: epoch_batches_def nsteps_pos [OF pos] batch_range_def)
  moreover have "(set (concat (epoch_batches n batch_size)) = {0..<n}) = (nat batch_size dvd n)"
    unfolding c using pos by (intro full_cover) simp
  ultimately show ?thesis using c by blast
qed

text \<open>
  Witness for C8: six examples in batches of two.
\<close>

theorem epoch_batches_partition_witness:
  "(0::int) < 2 \<and> epoch_batches 6 2 = [[0, 1], [2, 3], [4, 5]]
   \<and> set (concat (epoch_batches 6 2)) = {0..<6}"
proof -
  have p: "(0::int) < 2" by simp
  have e: "epoch_batches 6 2 = [[0, 1], [2, 3], [4, 5]]"
    by (simp add: epoch_batches_def nsteps_def batch_range_def upt_rec [of _ "numeral _"] upt_rec [of _ "Suc _"])
  from epoch_batches_partition [OF p, of "[]" "[]" "([], [])" "([], [])" 0 0 6]
  have "set (concat (epoch_batches 6 2)) = {0..<6}" by simp
  with p e show ?thesis by simp
qed

text \<open>
  Counterexample to C8 as stated: with five examples and batches of two, the epoch visits the
  indices 0..3 and never the example 4, so it is not a full pass over the dataset.
\<close>

theorem epoch_batches_partition_counterexample:
  "epoch_batches 5 2 = [[0, 1], [2, 3]] \<and> 4 \<notin> set (concat (epoch_batches 5 2))
   \<and> set (concat (epoch_batches 5 2)) \<noteq> {0..<5}"
proof -
  have e: "epoch_batches 5 2 = [[0, 1], [2, 3]]"
    by (simp add: epoch_batches_def nsteps_def batch_range_def upt_rec [of _ "numeral _"] upt_rec [of _ "Suc _"])
  have "(4::nat) \<in> {0..<5}" by simp
  then show ?thesis unfolding e by auto
qed

section \<open>Properties of the augmentation\<close>

lemma is_mat_nth: "is_mat r c m \<Longrightarrow> i < r \<Longrightarrow> length (m ! i) = c"
  by (simp add: is_mat_def list_all_length)

lemma is_mat_tensor_of: "is_mat r c img \<Longrightarrow> is_mat r c (tensor_of img)"
  by (simp add: is_mat_def tensor_of_def list_all_length)

lemma fill_nth: "i < r \<Longrightarrow> fill r c ! i = replicate c (Fin 255)"
  by (simp add: fill_def)

lemma Suc_Suc_diff_2: "\<not> i < 2 \<Longrightarrow> Suc (Suc (i - 2)) = i"
  by arith

lemma shifted_1_nth:
  "length t = 28 \<Longrightarrow> i < 28 \<Longrightarrow>
     img_shifted_1 t ! i = (if i < 2 then replicate 28 (Fin 255) else t ! i)"
  by (simp add: img_shifted_1_def nth_append fill_def Suc_Suc_diff_2)

lemma shifted_2_nth:
  "length t = 28 \<Longrightarrow> i < 28 \<Longrightarrow>
     img_shifted_2 t ! i = (if 26 \<le> i then replicate 28 (Fin 255) else t ! i)"
  by (simp add: img_shifted_2_def nth_append fill_def)

lemma shifted_3_nth:
  "length t = 28 \<Longrightarrow> i < 28 \<Longrightarrow>
     img_shifted_3 t ! i = replicate 2 (Fin 255) @ drop 2 (t ! i)"
  by (simp add: img_shifted_3_def fill_def)

lemma shifted_4_nth:
  "length t = 28 \<Longrightarrow> i < 28 \<Longrightarrow>
     img_shifted_4 t ! i = take 26 (t ! i) @ replicate 2 (Fin 255)"
  by (simp add: img_shifted_4_def fill_def)

lemma shifted_shapes:
  "is_mat 28 28 t \<Longrightarrow>
     is_mat 28 28 (img_shifted_1 t) \<and> is_mat 28 28 (img_shifted_2 t)
     \<and> is_mat 28 28 (img_shifted_3 t) \<and> is_mat 28 28 (img_shifted_4 t)"
  by (auto simp: is_mat_def list_all_length img_shifted_1_def img_shifted_2_def
        img_shifted_3_def img_shifted_4_def fill_def nth_append)

lemma shifted_entries:
  assumes t: "is_mat 28 28 t" and i: "i < 28" and j: "j < 28"
  shows "img_shifted_1 t ! i ! j = (if i < 2 then Fin 255 else t ! i ! j)"
    and "img_shifted_2 t ! i ! j = (if 26 \<le> i then Fin 255 else t ! i ! j)"
    and "img_shifted_3 t ! i ! j = (if j < 2 then Fin 255 else t ! i ! j)"
    and "img_shifted_4 t ! i ! j = (if 26 \<le> j then Fin 255 else t ! i ! j)"
proof -
  from t have len: "length t = 28" by (simp add: is_mat_def)
  from t i have row: "length (t ! i) = 28" by (rule is_mat_nth)
  show "img_shifted_1 t ! i ! j = (if i < 2 then Fin 255 else t ! i ! j)"
    using j by (simp add: shifted_1_nth [OF len i])
  show "img_shifted_2 t ! i ! j = (if 26 \<le> i then Fin 255 else t ! i ! j)"
    using j by (simp add: shifted_2_nth [OF len i])
  show "img_shifted_3 t ! i ! j = (if j < 2 then Fin 255 else t ! i ! j)"
    using j row by (simp add: shifted_3_nth [OF len i] nth_append Suc_Suc_diff_2)
  show "img_shifted_4 t ! i ! j = (if 26 \<le> j then Fin 255 else t ! i ! j)"
    using j row by (simp add: shifted_4_nth [OF len i] nth_append)
qed

text \<open>
  Claim C5, as amended. For a 28 by 28 training image, \<open>load_dataset\<close> collects, after the image
  itself, four variants of the same size and two rotations, all under the image's label. In
  each of the four variants a strip two pixels wide along one edge holds the constant 255 (the
  largest 8-bit intensity): the top two rows, the bottom two rows, the left two columns, the
  right two columns. Every pixel outside the strip has the value and the position it has in
  the source image: the content is overwritten at the edge, not translated.
\<close>

theorem augment_border_fill:
  "is_mat 28 28 img \<Longrightarrow>
     (\<exists>s1 s2 s3 s4.
        collect rot True [(img, label)] =
          Inr ([tensor_of img, s1, s2, s3, s4, tensor_of (rot 5 img), tensor_of (rot (- 5) img)],
               replicate 7 label)
        \<and> is_mat 28 28 s1 \<and> is_mat 28 28 s2 \<and> is_mat 28 28 s3 \<and> is_mat 28 28 s4
        \<and> (\<forall>i<28. \<forall>j<28.
              s1 ! i ! j = (if i < 2 then Fin 255 else tensor_of img ! i ! j)
            \<and> s2 ! i ! j = (if 26 \<le> i then Fin 255 else tensor_of img ! i ! j)
            \<and> s3 ! i ! j = (if j < 2 then Fin 255 else tensor_of img ! i ! j)
            \<and> s4 ! i ! j = (if 26 \<le> j then Fin 255 else tensor_of img ! i ! j)))"
proof -
  assume img: "is_mat 28 28 img"
  then have t: "is_mat 28 28 (tensor_of img)" by (rule is_mat_tensor_of)
  have c: "collect rot True [(img, label)] =
          Inr ([tensor_of img, img_shifted_1 (tensor_of img), img_shifted_2 (tensor_of img),
                img_shifted_3 (tensor_of img), img_shifted_4 (tensor_of img),
                tensor_of (rot 5 img), tensor_of (rot (- 5) img)], replicate 7 label)"
    using img by (simp add: augment_def Let_def numeral_eq_Suc)
  show ?thesis
    using c shifted_shapes [OF t] shifted_entries [OF t] by blast
qed


lemma sample_image_mat:
  "is_mat 28 28 (replicate 2 (replicate 28 (0 :: 8 word)) @ replicate 26 (replicate 28 9))"
  by (simp add: is_mat_def list_all_length nth_append)

lemma sample_image_rows:
  "tensor_of (replicate 2 (replicate 28 (0 :: 8 word)) @ replicate 26 (replicate 28 9)) ! 0 ! 0 = Fin 0"
  "tensor_of (replicate 2 (replicate 28 (0 :: 8 word)) @ replicate 26 (replicate 28 9)) ! 2 ! 0 = Fin 9"
  by (simp_all add: tensor_of_def nth_append)

text \<open>
  Witness for C5: an image whose first two rows are 0 and whose other rows are 9.
\<close>

theorem augment_border_fill_witness:
  "is_mat 28 28 (replicate 2 (replicate 28 (0 :: 8 word)) @ replicate 26 (replicate 28 9))
   \<and> (\<exists>s1 s2 s3 s4.
        collect (\<lambda>angle img. img) True
          [(replicate 2 (replicate 28 (0 :: 8 word)) @ replicate 26 (replicate 28 9), 3)] =
          Inr ([tensor_of (replicate 2 (replicate 28 0) @ replicate 26 (replicate 28 9)),
                s1, s2, s3, s4,
                tensor_of (replicate 2 (replicate 28 0) @ replicate 26 (replicate 28 9)),
                tensor_of (replicate 2 (replicate 28 0) @ replicate 26 (replicate 28 9))],
               replicate 7 3)
        \<and> s2 ! 27 ! 0 = Fin 255 \<and> s2 ! 2 ! 0 = Fin 9)"
proof -
  let ?img = "replicate 2 (replicate 28 (0 :: 8 word)) @ replicate 26 (replicate 28 9)"
  from augment_border_fill [OF sample_image_mat, of "\<lambda>angle img. img" 3]
  obtain s1 s2 s3 s4 where
    c: "collect (\<lambda>angle img. img) True [(?img, 3)] =
          Inr ([tensor_of ?img, s1, s2, s3, s4, tensor_of ?img, tensor_of ?img], replicate 7 3)"
    and e: "\<forall>i<28. \<forall>j<28. s2 ! i ! j = (if 26 \<le> i then Fin 255 else tensor_of ?img ! i ! j)"
    by blast
  from e have "s2 ! 27 ! 0 = Fin 255" "s2 ! 2 ! 0 = Fin 9"
    by (simp_all add: sample_image_rows)
  with c sample_image_mat show ?thesis by blast
qed

text \<open>
  Counterexample to C5 as stated: in the variant whose bottom two rows are filled with 255, row 2
  of the result is row 2 of the image (the value 9), not row 0 of the image (the value 0) moved
  down by two rows.
\<close>

theorem augment_border_fill_counterexample:
  "img_shifted_2 (tensor_of (replicate 2 (replicate 28 (0 :: 8 word)) @ replicate 26 (replicate 28 9)))
     ! 27 ! 0 = Fin 255
   \<and> img_shifted_2 (tensor_of (replicate 2 (replicate 28 (0 :: 8 word)) @ replicate 26 (replicate 28 9)))
     ! 2 ! 0 =
     tensor_of (replicate 2 (replicate 28 (0 :: 8 word)) @ replicate 26 (replicate 28 9)) ! 2 ! 0
   \<and> img_shifted_2 (tensor_of (replicate 2 (replicate 28 (0 :: 8 word)) @ replicate 26 (replicate 28 9)))
     ! 2 ! 0 \<noteq>
     tensor_of (replicate 2 (replicate 28 (0 :: 8 word)) @ replicate 26 (replicate 28 9)) ! 0 ! 0"
proof -
  let ?t = "tensor_of (replicate 2 (replicate 28 (0 :: 8 word)) @ replicate 26 (replicate 28 9))"
  have t: "is_mat 28 28 ?t" using sample_image_mat by (rule is_mat_tensor_of)
  have "img_shifted_2 ?t ! 27 ! 0 = Fin 255" "img_shifted_2 ?t ! 2 ! 0 = ?t ! 2 ! 0"
    by (simp_all add: shifted_entries(2) [OF t])
  then show ?thesis by (simp add: sample_image_rows)
qed

section \<open>Properties of one training step\<close>

lemma forward_Inr:
  "forward x w b = Inr r \<Longrightarrow>
     list_all (\<lambda>row. length row = length (fst w)) x
     \<and> is_mat (length (fst w)) (length (fst b)) (fst w)
     \<and> is_mat (length (fst b)) (length (snd b)) (snd w)"
  by (auto simp: forward_def Let_def split: if_splits)

lemma train_batch_Inr:
  assumes "train_batch x y_true w b mu batch_size wd = Inr r"
  shows "\<exists>z_h y_h_hat z y_hat.
           forward x w b = Inr (z_h, y_h_hat, z, y_hat)
           \<and> 0 < length x \<and> 0 < length (fst b) \<and> batch_size = int (length x)
           \<and> is_mat (length x) (length (snd b)) y_true
           \<and> r =
             ((madd (madd (fst w)
                       (smul mu (matmul (length (fst b)) (mtranspose (length (fst w)) x)
                          (replicate (length x)
                             (mean_axis0 (length (fst b))
                                (mmul (matmul (length (fst b)) (msub y_true y_hat)
                                         (mtranspose (length (snd b)) (snd w)))
                                      (relu_mask z_h)))))))
                    (smul mu (smul (- 2 * wd) (fst w))),
               madd (madd (snd w)
                       (smul mu (matmul (length (snd b)) (mtranspose (length (fst b)) y_h_hat)
                          (replicate (length x) (mean_axis0 (length (snd b)) (msub y_true y_hat))))))
                    (smul mu (smul (- 2 * wd) (snd w)))),
              (vadd (fst b)
                 (vsmul mu (mean_axis0 (length (fst b))
                    (mmul (matmul (length (fst b)) (msub y_true y_hat)
                             (mtranspose (length (snd b)) (snd w)))
                          (relu_mask z_h)))),
               vadd (snd b) (vsmul mu (mean_axis0 (length (snd b)) (msub y_true y_hat)))),
              fadd (cross_entropy_probs y_hat y_true)
                   (fmul (Fin wd) (msum (mmap (\<lambda>v. fmul v v) (snd w)))))"
proof (cases "forward x w b")
  case (Inl e)
  with assms show ?thesis by (simp add: train_batch_def)
next
  case (Inr f)
  obtain z_h y_h_hat z y_hat where f: "f = (z_h, y_h_hat, z, y_hat)" by (cases f) auto
  show ?thesis
    using assms unfolding train_batch_def Inr f
    by (simp add: Let_def split: if_splits)
qed


lemmas tensor_defs =
  is_mat_def matmul_def col_def dot_def fsum_def fmean_def add_rows_def vadd_def mmap_def
  madd_def msub_def mmul_def smul_def vsmul_def mean_axis0_def mtranspose_def msum_def
  hidden_activate_def activate_def softmax_row_def log_softmax_row_def fmaxs_def fmins_def
  std_mean_def fsub_def relu_mask_def cross_entropy_probs_def

lemma replicate_numeral: "replicate (numeral k) x = x # replicate (pred_numeral k) x"
  by (simp add: numeral_eq_Suc)

lemmas upt_numeral =
  upt_rec [of _ "numeral _"] upt_rec [of _ "Suc _"] upt_rec [of _ 1] replicate_numeral

lemma forward_sample:
  "forward [[Fin 0], [Fin 1], [Fin 2]] ([[Fin 1]], [[Fin 0, Fin 0]]) ([Fin 0], [Fin 0, Fin 0]) =
     Inr ([[Fin 0], [Fin 1], [Fin 2]], [[Fin (- 1)], [Fin 0], [Fin 1]],
          [[Fin 0, Fin 0], [Fin 0, Fin 0], [Fin 0, Fin 0]],
          [[Fin (1/2), Fin (1/2)], [Fin (1/2), Fin (1/2)], [Fin (1/2), Fin (1/2)]])"
  by (simp add: forward_def Let_def tensor_defs upt_numeral)

lemma train_batch_sample:
  "train_batch [[Fin 0], [Fin 1], [Fin 2]] [[Fin 1, Fin 0], [Fin 0, Fin 1], [Fin 0, Fin 1]]
       ([[Fin 1]], [[Fin 0, Fin 0]]) ([Fin 0], [Fin 0, Fin 0]) 1 3 1 =
     Inr (([[Fin (- 1)]], [[Fin 0, Fin 0]]), ([Fin 0], [Fin (- (1/6)), Fin (1/6)]), Fin (ln 2))"
  by (simp add: train_batch_def forward_sample Let_def tensor_defs upt_numeral)


lemma matmul_nth:
  "i < length a \<Longrightarrow> j < c \<Longrightarrow> matmul c a b ! i ! j = dot (a ! i) (col b j)"
  by (simp add: matmul_def)

lemma matmul_shape: "is_mat (length a) c (matmul c a b)"
  by (simp add: matmul_def is_mat_def list_all_length)

lemma mtranspose_nth: "j < c \<Longrightarrow> mtranspose c m ! j = col m j"
  by (simp add: mtranspose_def)

lemma mtranspose_length: "length (mtranspose c m) = c"
  by (simp add: mtranspose_def)

lemma col_replicate: "col (replicate n v) j = replicate n (v ! j)"
  by (simp add: col_def)

lemma mean_axis0_nth: "j < c \<Longrightarrow> mean_axis0 c m ! j = fmean (col m j)"
  by (simp add: mean_axis0_def)

lemma mean_axis0_length: "length (mean_axis0 c m) = c"
  by (simp add: mean_axis0_def)

lemma smul_shape: "is_mat r c m \<Longrightarrow> is_mat r c (smul k m)"
  by (simp add: smul_def mmap_def is_mat_def list_all_length)

lemma smul_nth: "is_mat r c m \<Longrightarrow> i < r \<Longrightarrow> j < c \<Longrightarrow> smul k m ! i ! j = fmul (Fin k) (m ! i ! j)"
  by (simp add: smul_def mmap_def is_mat_def list_all_length)

lemma madd_shape: "is_mat r c a \<Longrightarrow> is_mat r c b \<Longrightarrow> is_mat r c (madd a b)"
  by (simp add: madd_def is_mat_def list_all_length)

lemma madd_nth:
  "is_mat r c a \<Longrightarrow> is_mat r c b \<Longrightarrow> i < r \<Longrightarrow> j < c \<Longrightarrow>
     madd a b ! i ! j = fadd (a ! i ! j) (b ! i ! j)"
  by (simp add: madd_def is_mat_def list_all_length)

lemma vadd_vsmul_nth:
  "length v = c \<Longrightarrow> length u = c \<Longrightarrow> j < c \<Longrightarrow>
     vadd v (vsmul k u) ! j = fadd (v ! j) (fmul (Fin k) (u ! j))"
  by (simp add: vadd_def vsmul_def)

text \<open>The shape and the entries of one weight update \<open>w += mu * (a\<^sup>T @ rows); w += mu * copy\<close>.\<close>

lemma weight_update_entry:
  assumes w: "is_mat r c w" and i: "i < r" and j: "j < c"
  shows "madd (madd w (smul mu (matmul c (mtranspose r a) (replicate n v))))
              (smul mu (smul k w)) ! i ! j =
         fadd (fadd (w ! i ! j) (fmul (Fin mu) (dot (col a i) (replicate n (v ! j)))))
              (fmul (Fin mu) (fmul (Fin k) (w ! i ! j)))"
proof -
  let ?g = "matmul c (mtranspose r a) (replicate n v)"
  have g: "is_mat r c ?g" using matmul_shape [of "mtranspose r a" c] by (simp add: mtranspose_length)
  have ge: "?g ! i ! j = dot (col a i) (replicate n (v ! j))"
    using i j by (simp add: matmul_nth mtranspose_length mtranspose_nth col_replicate)
  have s1: "is_mat r c (smul mu ?g)" using g by (rule smul_shape)
  have s2: "is_mat r c (smul mu (smul k w))" using w by (intro smul_shape)
  have m1: "is_mat r c (madd w (smul mu ?g))" using w s1 by (rule madd_shape)
  show ?thesis
    using i j
    by (simp add: madd_nth [OF m1 s2] madd_nth [OF w s1] smul_nth [OF g]
          smul_nth [OF smul_shape [OF w]] smul_nth [OF w] ge)
qed

lemma weight_update_shape:
  assumes w: "is_mat r c w"
  shows "is_mat r c (madd (madd w (smul mu (matmul c (mtranspose r a) (replicate n v))))
              (smul mu (smul k w)))"
proof -
  let ?g = "matmul c (mtranspose r a) (replicate n v)"
  have g: "is_mat r c ?g" using matmul_shape [of "mtranspose r a" c] by (simp add: mtranspose_length)
  show ?thesis
    by (intro madd_shape smul_shape w g)
qed

text \<open>
  Claim C3, as amended. When \<open>train_batch\<close> returns, both weight matrices and both bias vectors
  keep their shapes and are updated entry by entry as follows, with \<open>error = y_true - y_hat\<close>
  and \<open>error_h\<close> the error sent back through \<open>w[1]\<close> and the ReLU mask. A weight goes to
  \<open>(w + mu * g) + mu * (-2 * wd * w)\<close>, where \<open>g\<close> is the product of the transposed layer input
  with the batch-mean error repeated in every one of the batch's rows: entry \<open>(h, k)\<close> of
  \<open>g\<close> is the sum over the batch of \<open>input[n][h] * mean(error[:, k])\<close>. It is not the mean over
  the batch of the per-example outer products. A bias goes to \<open>b + mu * mean(error[:, k])\<close>,
  with no outer product.
\<close>

theorem train_batch_update:
  assumes "train_batch x y_true w b mu batch_size wd = Inr (w', b', loss)"
  shows "\<exists>z_h y_h_hat z y_hat error error_h.
           forward x w b = Inr (z_h, y_h_hat, z, y_hat)
         \<and> error = msub y_true y_hat
         \<and> error_h = mmul (matmul (length (fst b)) error (mtranspose (length (snd b)) (snd w)))
                         (relu_mask z_h)
         \<and> is_mat (length (fst w)) (length (fst b)) (fst w')
         \<and> is_mat (length (fst b)) (length (snd b)) (snd w')
         \<and> (\<forall>h < length (fst b). \<forall>k < length (snd b).
               snd w' ! h ! k =
                 fadd (fadd (snd w ! h ! k)
                         (fmul (Fin mu)
                            (dot (col y_h_hat h) (replicate (length x) (fmean (col error k))))))
                      (fmul (Fin mu) (fmul (Fin (- 2 * wd)) (snd w ! h ! k))))
         \<and> (\<forall>k < length (snd b).
               snd b' ! k = fadd (snd b ! k) (fmul (Fin mu) (fmean (col error k))))
         \<and> (\<forall>i < length (fst w). \<forall>h < length (fst b).
               fst w' ! i ! h =
                 fadd (fadd (fst w ! i ! h)
                         (fmul (Fin mu)
                            (dot (col x i) (replicate (length x) (fmean (col error_h h))))))
                      (fmul (Fin mu) (fmul (Fin (- 2 * wd)) (fst w ! i ! h))))
         \<and> (\<forall>h < length (fst b).
               fst b' ! h = fadd (fst b ! h) (fmul (Fin mu) (fmean (col error_h h))))"
proof -
  from train_batch_Inr [OF assms] obtain z_h y_h_hat z y_hat where
    f: "forward x w b = Inr (z_h, y_h_hat, z, y_hat)"
    and r: "(w', b', loss) =
             ((madd (madd (fst w)
                       (smul mu (matmul (length (fst b)) (mtranspose (length (fst w)) x)
                          (replicate (length x)
                             (mean_axis0 (length (fst b))
                                (mmul (matmul (length (fst b)) (msub y_true y_hat)
                                         (mtranspose (length (snd b)) (snd w)))
                                      (relu_mask z_h)))))))
                    (smul mu (smul (- 2 * wd) (fst w))),
               madd (madd (snd w)
                       (smul mu (matmul (length (snd b)) (mtranspose (length (fst b)) y_h_hat)
                          (replicate (length x) (mean_axis0 (length (snd b)) (msub y_true y_hat))))))
                    (smul mu (smul (- 2 * wd) (snd w)))),
              (vadd (fst b)
                 (vsmul mu (mean_axis0 (length (fst b))
                    (mmul (matmul (length (fst b)) (msub y_true y_hat)
                             (mtranspose (length (snd b)) (snd w)))
                          (relu_mask z_h)))),
               vadd (snd b) (vsmul mu (mean_axis0 (length (snd b)) (msub y_true y_hat)))),
              fadd (cross_entropy_probs y_hat y_true)
                   (fmul (Fin wd) (msum (mmap (\<lambda>v. fmul v v) (snd w)))))"
    by blast
  define error where "error = msub y_true y_hat"
  define error_h where
    "error_h = mmul (matmul (length (fst b)) error (mtranspose (length (snd b)) (snd w)))
                 (relu_mask z_h)"
  from forward_Inr [OF f] have w0: "is_mat (length (fst w)) (length (fst b)) (fst w)"
    and w1: "is_mat (length (fst b)) (length (snd b)) (snd w)" by simp_all
  from r have fw: "fst w' = madd (madd (fst w)
                       (smul mu (matmul (length (fst b)) (mtranspose (length (fst w)) x)
                          (replicate (length x) (mean_axis0 (length (fst b)) error_h)))))
                    (smul mu (smul (- 2 * wd) (fst w)))"
    and sw: "snd w' = madd (madd (snd w)
                       (smul mu (matmul (length (snd b)) (mtranspose (length (fst b)) y_h_hat)
                          (replicate (length x) (mean_axis0 (length (snd b)) error)))))
                    (smul mu (smul (- 2 * wd) (snd w)))"
    and fb: "fst b' = vadd (fst b) (vsmul mu (mean_axis0 (length (fst b)) error_h))"
    and sb: "snd b' = vadd (snd b) (vsmul mu (mean_axis0 (length (snd b)) error))"
    by (simp_all add: error_def error_h_def)
  have "is_mat (length (fst w)) (length (fst b)) (fst w')"
    unfolding fw by (rule weight_update_shape [OF w0])
  moreover have "is_mat (length (fst b)) (length (snd b)) (snd w')"
    unfolding sw by (rule weight_update_shape [OF w1])
  moreover have "\<forall>h < length (fst b). \<forall>k < length (snd b).
               snd w' ! h ! k =
                 fadd (fadd (snd w ! h ! k)
                         (fmul (Fin mu)
                            (dot (col y_h_hat h) (replicate (length x) (fmean (col error k))))))
                      (fmul (Fin mu) (fmul (Fin (- 2 * wd)) (snd w ! h ! k)))"
    unfolding sw by (simp add: weight_update_entry [OF w1] mean_axis0_nth)
  moreover have "\<forall>i < length (fst w). \<forall>h < length (fst b).
               fst w' ! i ! h =
                 fadd (fadd (fst w ! i ! h)
                         (fmul (Fin mu)
                            (dot (col x i) (replicate (length x) (fmean (col error_h h))))))
                      (fmul (Fin mu) (fmul (Fin (- 2 * wd)) (fst w ! i ! h)))"
    unfolding fw by (simp add: weight_update_entry [OF w0] mean_axis0_nth)
  moreover have "\<forall>k < length (snd b).
               snd b' ! k = fadd (snd b ! k) (fmul (Fin mu) (fmean (col error k)))"
    unfolding sb by (simp add: vadd_vsmul_nth mean_axis0_length mean_axis0_nth)
  moreover have "\<forall>h < length (fst b).
               fst b' ! h = fadd (fst b ! h) (fmul (Fin mu) (fmean (col error_h h)))"
    unfolding fb by (simp add: vadd_vsmul_nth mean_axis0_length mean_axis0_nth)
  ultimately show ?thesis using f error_def error_h_def by blast
qed


text \<open>
  Witness for C3: a batch of three examples, one input, one hidden unit, two classes.
\<close>

theorem train_batch_update_witness:
  "train_batch [[Fin 0], [Fin 1], [Fin 2]] [[Fin 1, Fin 0], [Fin 0, Fin 1], [Fin 0, Fin 1]]
       ([[Fin 1]], [[Fin 0, Fin 0]]) ([Fin 0], [Fin 0, Fin 0]) 1 3 1 =
     Inr (([[Fin (- 1)]], [[Fin 0, Fin 0]]), ([Fin 0], [Fin (- (1/6)), Fin (1/6)]), Fin (ln 2))
   \<and> is_mat 1 1 [[Fin (- 1)]] \<and> is_mat 1 2 [[Fin 0, Fin 0 :: fl]]"
proof -
  from train_batch_update [OF train_batch_sample]
  have "is_mat (length (fst ([[Fin 1]], [[Fin 0, Fin 0]]))) (length (fst ([Fin 0], [Fin 0, Fin 0])))
          (fst ([[Fin (- 1)]], [[Fin 0, Fin 0]]))"
    and "is_mat (length (fst ([Fin 0], [Fin 0, Fin 0]))) (length (snd ([Fin 0], [Fin 0, Fin 0])))
          (snd ([[Fin (- 1)]], [[Fin 0, Fin 0]]))"
    by blast+
  then have "is_mat 1 1 [[Fin (- 1)]]" and "is_mat 1 2 [[Fin 0, Fin 0 :: fl]]"
    by (simp_all add: numeral_2_eq_2)
  with train_batch_sample show ?thesis by blast
qed

text \<open>
  Counterexample to C3 as stated: on this batch \<open>train_batch\<close> leaves \<open>w[1]\<close> at \<open>[[0, 0]]\<close>
  (the standardized hidden activations sum to zero over the batch), while the update by the
  mean over the batch of the per-example outer products gives \<open>[[-1/3, 1/3]]\<close>.
\<close>

theorem train_batch_update_counterexample:
  "train_batch [[Fin 0], [Fin 1], [Fin 2]] [[Fin 1, Fin 0], [Fin 0, Fin 1], [Fin 0, Fin 1]]
       ([[Fin 1]], [[Fin 0, Fin 0]]) ([Fin 0], [Fin 0, Fin 0]) 1 3 1 =
     Inr (([[Fin (- 1)]], [[Fin 0, Fin 0]]), ([Fin 0], [Fin (- (1/6)), Fin (1/6)]), Fin (ln 2))
   \<and> (case forward [[Fin 0], [Fin 1], [Fin 2]] ([[Fin 1]], [[Fin 0, Fin 0]])
              ([Fin 0], [Fin 0, Fin 0]) of
         Inl e \<Rightarrow> []
       | Inr (z_h, y_h_hat, z, y_hat) \<Rightarrow>
           spec_weight_update [[Fin 0, Fin 0]] 1
             (mean_outer 1 2 y_h_hat
                (msub [[Fin 1, Fin 0], [Fin 0, Fin 1], [Fin 0, Fin 1]] y_hat)) 1)
       = [[Fin (- (1/3)), Fin (1/3)]]
   \<and> [[Fin 0, Fin 0]] \<noteq> [[Fin (- (1/3)), Fin (1/3)]]"
  by (simp add: train_batch_sample forward_sample spec_weight_update_def mean_outer_def
        tensor_defs upt_numeral)







section \<open>Properties of the forward pass\<close>



lemma fdiv_NaN_right: "fdiv x NaN = NaN"
  by (cases x) simp_all

lemma foldl_fadd_NaN: "foldl fadd NaN xs = NaN"
  by (induction xs) simp_all

lemma fsum_replicate_NaN: "0 < n \<Longrightarrow> fsum (replicate n NaN) = NaN"
  by (cases n) (simp_all add: fsum_def foldl_fadd_NaN)

lemma foldl_fadd_replicate_Fin:
  "foldl fadd (Fin a) (replicate n (Fin c)) = Fin (a + real n * c)"
  by (induction n arbitrary: a) (simp_all add: algebra_simps)

lemma foldl_fadd_replicate_PInf: "foldl fadd PInf (replicate n PInf) = PInf"
  by (induction n) simp_all

lemma foldl_fadd_replicate_NInf: "foldl fadd NInf (replicate n NInf) = NInf"
  by (induction n) simp_all

text \<open>An entry that is zero or NaN.\<close>

lemma centred_replicate:
  "0 < n \<Longrightarrow> fsub v (fmean (replicate n v)) = Fin 0 \<or> fsub v (fmean (replicate n v)) = NaN"
proof (cases v)
  case (Fin c)
  assume "0 < n"
  then show ?thesis
    by (simp add: Fin fmean_def fsum_def fsub_def foldl_fadd_replicate_Fin)
next
  case PInf
  assume "0 < n"
  then obtain k where "n = Suc k" by (cases n) auto
  then show ?thesis
    by (simp add: PInf fmean_def fsum_def fsub_def foldl_fadd_replicate_PInf)
next
  case NInf
  assume "0 < n"
  then obtain k where "n = Suc k" by (cases n) auto
  then show ?thesis
    by (simp add: NInf fmean_def fsum_def fsub_def foldl_fadd_replicate_NInf)
next
  case NaN
  then show ?thesis by (simp add: fsub_def)
qed

lemma foldl_fadd_zero_or_NaN:
  "acc = Fin 0 \<or> acc = NaN \<Longrightarrow> d = Fin 0 \<or> d = NaN \<Longrightarrow>
     foldl fadd acc (replicate n d) = Fin 0 \<or> foldl fadd acc (replicate n d) = NaN"
proof -
  assume acc: "acc = Fin 0 \<or> acc = NaN" and d: "d = Fin 0 \<or> d = NaN"
  show ?thesis
  proof (cases "acc = NaN")
    case True
    then show ?thesis by (simp add: foldl_fadd_NaN)
  next
    case False
    with acc have a: "acc = Fin 0" by simp
    show ?thesis
    proof (cases "d = NaN")
      case True
      show ?thesis
        by (cases n) (simp_all add: a True foldl_fadd_NaN)
    next
      case False
      with d have "d = Fin 0" by simp
      then show ?thesis by (simp add: a foldl_fadd_replicate_Fin)
    qed
  qed
qed

lemma std_replicate:
  assumes "0 < n"
  shows "fst (std_mean [replicate n v]) = Fin 0 \<or> fst (std_mean [replicate n v]) = NaN"
proof -
  let ?d = "fsub v (fmean (replicate n v))"
  have d: "fmul ?d ?d = Fin 0 \<or> fmul ?d ?d = NaN"
    using centred_replicate [OF assms, of v] by auto
  have "fsum (replicate n (fmul ?d ?d)) = Fin 0 \<or> fsum (replicate n (fmul ?d ?d)) = NaN"
    unfolding fsum_def by (rule foldl_fadd_zero_or_NaN [OF _ d]) simp
  then have "fdiv (fsum (replicate n (fmul ?d ?d))) (Fin (real (n - 1))) = Fin 0
           \<or> fdiv (fsum (replicate n (fmul ?d ?d))) (Fin (real (n - 1))) = NaN"
    by auto
  then have "fsqrt (fdiv (fsum (replicate n (fmul ?d ?d))) (Fin (real (n - 1)))) = Fin 0
           \<or> fsqrt (fdiv (fsum (replicate n (fmul ?d ?d))) (Fin (real (n - 1)))) = NaN"
    by auto
  then show ?thesis by (simp add: std_mean_def Let_def)
qed

lemma std_mean_concat: "std_mean m = std_mean [concat m]"
  by (simp add: std_mean_def)

lemma concat_replicate_replicate: "concat (replicate r (replicate c v)) = replicate (r * c) v"
  by (induction r) (simp_all add: replicate_add)

text \<open>Standardizing a tensor whose entries are all equal gives NaN everywhere.\<close>

lemma standardize_constant:
  "mmap (\<lambda>e. fdiv e (fst (std_mean (replicate r (replicate c v)))))
     (mmap (\<lambda>e. fsub e (snd (std_mean (replicate r (replicate c v))))) (replicate r (replicate c v)))
   = replicate r (replicate c NaN)"
proof (cases "0 < r * c")
  case True
  let ?m = "replicate r (replicate c v)"
  have sm: "std_mean ?m = std_mean [replicate (r * c) v]"
    by (subst std_mean_concat) (simp add: concat_replicate_replicate)
  have mean: "snd (std_mean ?m) = fmean (replicate (r * c) v)"
    unfolding sm by (simp add: std_mean_def Let_def)
  have "fdiv (fsub v (fmean (replicate (r * c) v))) (fst (std_mean [replicate (r * c) v])) = NaN"
    using centred_replicate [OF True, of v] std_replicate [OF True, of v] by auto
  then show ?thesis
    unfolding mean unfolding sm by (simp add: mmap_def)
next
  case False
  then have "r = 0 \<or> c = 0" by simp
  then show ?thesis by (auto simp: mmap_def)
qed

lemma dot_replicate_NaN: "0 < n \<Longrightarrow> length ys = n \<Longrightarrow> dot (replicate n NaN) ys = NaN"
proof -
  assume n: "0 < n" and l: "length ys = n"
  have "map2 fmul (replicate n NaN) ys = replicate n NaN"
    using l by (induction ys arbitrary: n) auto
  then show ?thesis using n by (simp add: dot_def fsum_replicate_NaN)
qed

lemma vadd_replicate_NaN: "length v = n \<Longrightarrow> vadd (replicate n NaN) v = replicate n NaN"
  unfolding vadd_def by (induction v arbitrary: n) auto

lemma softmax_row_NaN: "softmax_row (replicate n NaN) = replicate n NaN"
  by (simp add: softmax_row_def Let_def fsub_def)

lemma forward_constant_hidden_aux:
  assumes "forward x w b = Inr (z_h, y_h_hat, z, y_hat)"
    and "hidden_activate z_h = replicate (length x) (replicate (length (fst b)) v)"
  shows "y_h_hat = replicate (length x) (replicate (length (fst b)) NaN)
       \<and> (0 < length (fst b) \<longrightarrow>
            z = replicate (length x) (replicate (length (snd b)) NaN)
          \<and> y_hat = replicate (length x) (replicate (length (snd b)) NaN))"
proof -
  let ?h = "length (fst b)" and ?o = "length (snd b)"
  from forward_Inr [OF assms(1)] have w1: "is_mat ?h ?o (snd w)" by simp
  from assms(1) have zh: "z_h = add_rows (matmul ?h x (fst w)) (fst b)"
    by (auto simp: forward_def Let_def split: if_splits)
  from assms(1) have yh: "y_h_hat =
      mmap (\<lambda>e. fdiv e (fst (std_mean (hidden_activate z_h))))
        (mmap (\<lambda>e. fsub e (snd (std_mean (hidden_activate z_h)))) (hidden_activate z_h))"
    by (auto simp: forward_def Let_def split: if_splits)
  from assms(1) have z: "z = add_rows (matmul ?o y_h_hat (snd w)) (snd b)"
    and y: "y_hat = activate z"
    by (auto simp: forward_def Let_def split: if_splits)
  have a: "y_h_hat = replicate (length x) (replicate ?h NaN)"
    unfolding yh assms(2) by (rule standardize_constant)
  have b: "z = replicate (length x) (replicate ?o NaN)" if h: "0 < ?h"
  proof -
    have "dot (replicate ?h NaN) (col (snd w) j) = NaN" for j
      using w1 by (intro dot_replicate_NaN [OF h]) (simp add: col_def is_mat_def)
    then have "map (\<lambda>j. dot (replicate ?h NaN) (col (snd w) j)) [0..<?o] = replicate ?o NaN"
      by (simp add: map_replicate_const)
    then show ?thesis
      unfolding z a by (simp add: add_rows_def matmul_def vadd_replicate_NaN)
  qed
  have "y_hat = replicate (length x) (replicate ?o NaN)" if h: "0 < ?h"
    unfolding y b [OF h] by (simp add: activate_def softmax_row_NaN)
  with a b show ?thesis by blast
qed


text \<open>
  Claim C7. When \<open>forward\<close> returns and all entries of the hidden activation
  \<open>ReLU(x @ w[0] + b[0])\<close> are equal (for example all pre-activations non-positive, as with all-zero
  weights and biases), the standardization divides by a standard deviation that is zero (or
  NaN, for a single entry): every entry of \<open>y_h_hat\<close> is NaN and, with at least one hidden unit,
  so is every entry of \<open>z\<close> and of \<open>y_hat\<close>. Nothing in \<open>forward\<close> guards the division.
\<close>

theorem forward_constant_hidden:
  assumes "forward x w b = Inr (z_h, y_h_hat, z, y_hat)"
    and "hidden_activate z_h = replicate (length x) (replicate (length (fst b)) v)"
  shows "y_h_hat = replicate (length x) (replicate (length (fst b)) NaN)
       \<and> (0 < length (fst b) \<longrightarrow>
            z = replicate (length x) (replicate (length (snd b)) NaN)
          \<and> y_hat = replicate (length x) (replicate (length (snd b)) NaN))"
  using assms by (rule forward_constant_hidden_aux)

lemma forward_zero_sample:
  "forward [[Fin 1, Fin 2, Fin 3, Fin 4], [Fin 5, Fin 6, Fin 7, Fin 8]]
     (replicate 4 (replicate 3 (Fin 0)), replicate 3 (replicate 2 (Fin 0)))
     (replicate 3 (Fin 0), replicate 2 (Fin 0)) =
   Inr (replicate 2 (replicate 3 (Fin 0)), replicate 2 (replicate 3 NaN),
        replicate 2 (replicate 2 NaN), replicate 2 (replicate 2 NaN))"
  by (simp add: forward_def Let_def tensor_defs upt_numeral)

text \<open>
  Witness for C7: two examples, weights and biases all zero (4 inputs, 3 hidden units, 2 classes).
\<close>

theorem forward_constant_hidden_witness:
  "forward [[Fin 1, Fin 2, Fin 3, Fin 4], [Fin 5, Fin 6, Fin 7, Fin 8]]
     (replicate 4 (replicate 3 (Fin 0)), replicate 3 (replicate 2 (Fin 0)))
     (replicate 3 (Fin 0), replicate 2 (Fin 0)) =
   Inr (replicate 2 (replicate 3 (Fin 0)), replicate 2 (replicate 3 NaN),
        replicate 2 (replicate 2 NaN), replicate 2 (replicate 2 NaN))
   \<and> hidden_activate (replicate 2 (replicate 3 (Fin 0))) = replicate 2 (replicate 3 (Fin 0))
   \<and> replicate 2 (replicate 2 NaN) = [[NaN, NaN], [NaN, NaN]]"
proof -
  have h: "hidden_activate (replicate 2 (replicate 3 (Fin 0))) =
      replicate (length [[Fin 1, Fin 2, Fin 3, Fin 4], [Fin 5, Fin 6, Fin 7, Fin 8]])
        (replicate (length (fst (replicate 3 (Fin 0), replicate 2 (Fin 0)))) (Fin 0))"
    by (simp add: hidden_activate_def mmap_def replicate_numeral)
  from forward_constant_hidden [OF forward_zero_sample h]
  have "replicate 2 (replicate 2 NaN) = [[NaN, NaN], [NaN, NaN]]"
    by (simp add: upt_numeral)
  moreover have "hidden_activate (replicate 2 (replicate 3 (Fin 0))) = replicate 2 (replicate 3 (Fin 0))"
    by (simp add: hidden_activate_def mmap_def)
  ultimately show ?thesis using forward_zero_sample by blast
qed

section \<open>Properties of the all-zero output layer\<close>







































section \<open>Properties of the normalization\<close>

lemma foldl_fmax_Fin: "foldl fmax (Fin a) (map Fin rs) = Fin (foldl max a rs)"
  by (induction rs arbitrary: a) simp_all

lemma foldl_fmin_Fin: "foldl fmin (Fin a) (map Fin rs) = Fin (foldl min a rs)"
  by (induction rs arbitrary: a) simp_all

lemma foldl_max_mem: "foldl max (a::real) rs \<in> set (a # rs)"
proof (induction rs arbitrary: a)
  case Nil
  show ?case by simp
next
  case (Cons r rs)
  from Cons [of "max a r"] show ?case by (auto simp: max_def split: if_splits)
qed

lemma foldl_max_ge_init: "(a::real) \<le> foldl max a rs"
proof (induction rs arbitrary: a)
  case Nil
  show ?case by simp
next
  case (Cons r rs)
  have "a \<le> max a r" by simp
  also have "\<dots> \<le> foldl max (max a r) rs" by (rule Cons)
  finally show ?case by simp
qed

lemma foldl_max_ge: "r \<in> set (a # rs) \<Longrightarrow> (r::real) \<le> foldl max a rs"
proof (induction rs arbitrary: a)
  case Nil
  then show ?case by simp
next
  case (Cons q rs)
  from Cons.prems consider "r = a" | "r = q" | "r \<in> set rs" by auto
  then show ?case
  proof cases
    case 1
    then show ?thesis using foldl_max_ge_init [of a "q # rs"] by simp
  next
    case 2
    have "r \<le> max a q" using 2 by simp
    also have "\<dots> \<le> foldl max (max a q) rs" by (rule foldl_max_ge_init)
    finally show ?thesis by simp
  next
    case 3
    then show ?thesis using Cons.IH [of "max a q"] by simp
  qed
qed

lemma foldl_min_mem: "foldl min (a::real) rs \<in> set (a # rs)"
proof (induction rs arbitrary: a)
  case Nil
  show ?case by simp
next
  case (Cons r rs)
  from Cons [of "min a r"] show ?case by (auto simp: min_def split: if_splits)
qed

lemma foldl_min_le_init: "foldl min a rs \<le> (a::real)"
proof (induction rs arbitrary: a)
  case Nil
  show ?case by simp
next
  case (Cons r rs)
  have "foldl min (min a r) rs \<le> min a r" by (rule Cons)
  also have "\<dots> \<le> a" by simp
  finally show ?case by simp
qed

lemma foldl_min_le: "r \<in> set (a # rs) \<Longrightarrow> foldl min a rs \<le> (r::real)"
proof (induction rs arbitrary: a)
  case Nil
  then show ?case by simp
next
  case (Cons q rs)
  from Cons.prems consider "r = a" | "r = q" | "r \<in> set rs" by auto
  then show ?case
  proof cases
    case 1
    then show ?thesis using foldl_min_le_init [of a "q # rs"] by simp
  next
    case 2
    have "foldl min (min a q) rs \<le> min a q" by (rule foldl_min_le_init)
    also have "\<dots> \<le> r" using 2 by simp
    finally show ?thesis by simp
  next
    case 3
    then show ?thesis using Cons.IH [of "min a q"] by simp
  qed
qed

lemma fmaxs_Fin:
  assumes "rs \<noteq> []"
  shows "\<exists>m. fmaxs (map Fin rs) = Fin m \<and> m \<in> set rs \<and> (\<forall>r\<in>set rs. r \<le> m)"
proof -
  from assms obtain a rest where rs: "rs = a # rest" by (cases rs) auto
  have "fmaxs (map Fin rs) = Fin (foldl max a rest)"
    by (simp add: rs fmaxs_def foldl_fmax_Fin)
  moreover have "foldl max a rest \<in> set rs" unfolding rs by (rule foldl_max_mem)
  moreover have "\<forall>r\<in>set rs. r \<le> foldl max a rest" unfolding rs by (blast intro: foldl_max_ge)
  ultimately show ?thesis by blast
qed

lemma fmins_Fin:
  assumes "rs \<noteq> []"
  shows "\<exists>m. fmins (map Fin rs) = Fin m \<and> m \<in> set rs \<and> (\<forall>r\<in>set rs. m \<le> r)"
proof -
  from assms obtain a rest where rs: "rs = a # rest" by (cases rs) auto
  have "fmins (map Fin rs) = Fin (foldl min a rest)"
    by (simp add: rs fmins_def foldl_fmin_Fin)
  moreover have "foldl min a rest \<in> set rs" unfolding rs by (rule foldl_min_mem)
  moreover have "\<forall>r\<in>set rs. foldl min a rest \<le> r" unfolding rs by (blast intro: foldl_min_le)
  ultimately show ?thesis by blast
qed

lemma fl_range: "(fl_le (Fin lo) e \<and> fl_le e (Fin hi)) = (\<exists>r. e = Fin r \<and> lo \<le> r \<and> r \<le> hi)"
  by (cases e) auto

lemma range_list:
  "\<forall>e\<in>set xs. \<exists>r. e = Fin r \<and> lo \<le> r \<and> r \<le> hi \<Longrightarrow>
     \<exists>rs. xs = map Fin rs \<and> (\<forall>r\<in>set rs. lo \<le> r \<and> r \<le> hi)"
proof (induction xs)
  case Nil
  show ?case by simp
next
  case (Cons e xs)
  then obtain rs where rs: "xs = map Fin rs" "\<forall>r\<in>set rs. lo \<le> r \<and> r \<le> hi" by auto
  from Cons.prems obtain r where r: "e = Fin r" "lo \<le> r" "r \<le> hi" by auto
  show ?case by (rule exI [of _ "r # rs"]) (use rs r in simp)
qed

text \<open>Step (1) on non-negative entries whose maximum is not 0 lands in [0, 1].\<close>

lemma min_max_scale_unit:
  assumes rng: "\<forall>e\<in>set (concat x). \<exists>r. e = Fin r \<and> 0 \<le> r \<and> r \<le> hi"
    and nz: "fmaxs (concat x) \<noteq> Fin 0"
    and e: "e \<in> set (concat x)"
  shows "fl_le (Fin 0) (fdiv (fsub e (fmins (concat x))) (fmaxs (concat x)))
       \<and> fl_le (fdiv (fsub e (fmins (concat x))) (fmaxs (concat x))) (Fin 1)"
proof -
  from range_list [OF rng] obtain rs where rs: "concat x = map Fin rs"
    and b: "\<forall>r\<in>set rs. 0 \<le> r \<and> r \<le> hi" by blast
  from e rs have ne: "rs \<noteq> []" by auto
  from fmaxs_Fin [OF ne] obtain mx where mx: "fmaxs (map Fin rs) = Fin mx" "mx \<in> set rs"
    "\<forall>r\<in>set rs. r \<le> mx" by blast
  from fmins_Fin [OF ne] obtain mn where mn: "fmins (map Fin rs) = Fin mn" "mn \<in> set rs"
    "\<forall>r\<in>set rs. mn \<le> r" by blast
  from e rs obtain r where r: "e = Fin r" "r \<in> set rs" by auto
  from nz mx rs have "mx \<noteq> 0" by simp
  moreover from b mx(2) have "0 \<le> mx" by blast
  ultimately have p: "0 < mx" by simp
  from b mn(2) have "0 \<le> mn" by blast
  moreover from mn(3) r(2) have "mn \<le> r" by blast
  moreover from mx(3) r(2) have "r \<le> mx" by blast
  ultimately have "0 \<le> (r - mn) / mx" "(r - mn) / mx \<le> 1" using p by simp_all
  then show ?thesis using p by (simp add: rs mx mn r fsub_def)
qed


lemma pixel_range: "0 \<le> real (unat (p :: 8 word)) \<and> real (unat p) \<le> 255"
proof -
  have "unat p < 2 ^ LENGTH(8)" by (rule unsigned_less)
  then have "unat p \<le> 255" by simp
  then have "real (unat p) \<le> real 255" by (simp only: of_nat_le_iff)
  then show ?thesis by (simp del: of_nat_unat)
qed

lemma tensor_of_range:
  assumes "e \<in> set (concat (tensor_of img))"
  shows "\<exists>r. e = Fin r \<and> 0 \<le> r \<and> r \<le> 255"
proof -
  from assms obtain p :: "8 word" where "e = Fin (real (unat p))"
    by (auto simp: tensor_of_def simp del: of_nat_unat)
  with pixel_range [of p] show ?thesis by blast
qed

lemma fill_set: "set (concat (fill r c)) \<subseteq> {Fin 255}"
  by (auto simp: fill_def)

lemma concat_drop_set: "set (concat (drop n t)) \<subseteq> set (concat t)"
  using set_drop_subset [of n t] by auto

lemma concat_take_set: "set (concat (take n t)) \<subseteq> set (concat t)"
  using set_take_subset [of n t] by auto

lemma shifted_1_set: "set (concat (img_shifted_1 t)) \<subseteq> insert (Fin 255) (set (concat t))"
proof -
  have "set (concat (img_shifted_1 t)) = set (concat (fill 2 28)) \<union> set (concat (drop 2 t))"
    by (simp only: img_shifted_1_def concat_append set_append)
  with fill_set [of 2 28] concat_drop_set [of 2 t] show ?thesis by blast
qed

lemma shifted_2_set: "set (concat (img_shifted_2 t)) \<subseteq> insert (Fin 255) (set (concat t))"
proof -
  have "set (concat (img_shifted_2 t)) = set (concat (take 26 t)) \<union> set (concat (fill 2 28))"
    by (simp only: img_shifted_2_def concat_append set_append)
  with fill_set [of 2 28] concat_take_set [of 26 t] show ?thesis by blast
qed

lemma shifted_3_set: "set (concat (img_shifted_3 t)) \<subseteq> insert (Fin 255) (set (concat t))"
proof
  fix e assume "e \<in> set (concat (img_shifted_3 t))"
  then obtain f r where z: "(f, r) \<in> set (zip (fill 28 2) (map (drop 2) t))" and e: "e \<in> set (f @ r)"
    by (auto simp: img_shifted_3_def)
  from z have "f \<in> set (fill 28 2)" "r \<in> set (map (drop 2) t)"
    by (auto dest: set_zip_leftD set_zip_rightD)
  with e show "e \<in> insert (Fin 255) (set (concat t))"
    by (auto simp: fill_def dest: in_set_dropD)
qed

lemma shifted_4_set: "set (concat (img_shifted_4 t)) \<subseteq> insert (Fin 255) (set (concat t))"
proof
  fix e assume "e \<in> set (concat (img_shifted_4 t))"
  then obtain r f where z: "(r, f) \<in> set (zip (map (take 26) t) (fill 28 2))" and e: "e \<in> set (r @ f)"
    by (auto simp: img_shifted_4_def)
  from z have "f \<in> set (fill 28 2)" "r \<in> set (map (take 26) t)"
    by (auto dest: set_zip_leftD set_zip_rightD)
  with e show "e \<in> insert (Fin 255) (set (concat t))"
    by (auto simp: fill_def dest: in_set_takeD)
qed

lemma augment_range:
  assumes "augment rot img = Inr extra" and "e \<in> set (concat (concat extra))"
  shows "\<exists>r. e = Fin r \<and> 0 \<le> r \<and> r \<le> 255"
proof -
  from assms(1) have x: "extra = [img_shifted_1 (tensor_of img), img_shifted_2 (tensor_of img),
      img_shifted_3 (tensor_of img), img_shifted_4 (tensor_of img),
      tensor_of (rot 5 img), tensor_of (rot (- 5) img)]"
    by (auto simp: augment_def Let_def split: if_splits)
  have "set (concat (concat extra)) =
      set (concat (img_shifted_1 (tensor_of img))) \<union> set (concat (img_shifted_2 (tensor_of img)))
      \<union> set (concat (img_shifted_3 (tensor_of img))) \<union> set (concat (img_shifted_4 (tensor_of img)))
      \<union> set (concat (tensor_of (rot 5 img))) \<union> set (concat (tensor_of (rot (- 5) img)))"
    unfolding x by (simp del: set_concat add: Un_assoc)
  with assms(2) shifted_1_set [of "tensor_of img"] shifted_2_set [of "tensor_of img"]
    shifted_3_set [of "tensor_of img"] shifted_4_set [of "tensor_of img"]
  consider "e = Fin 255" | "e \<in> set (concat (tensor_of img))"
    | "e \<in> set (concat (tensor_of (rot 5 img)))" | "e \<in> set (concat (tensor_of (rot (- 5) img)))"
    by blast
  then show ?thesis
  proof cases
    case 1
    then show ?thesis by simp
  qed (rule tensor_of_range, assumption)+
qed

lemma collect_range:
  "collect rot tr mnist = Inr (imgs, ys) \<Longrightarrow> e \<in> set (concat (concat imgs)) \<Longrightarrow>
     \<exists>r. e = Fin r \<and> 0 \<le> r \<and> r \<le> 255"
proof (induction mnist arbitrary: imgs ys)
  case Nil
  then show ?case by simp
next
  case (Cons s mnist)
  obtain img label where s: "s = (img, label)" by (cases s)
  from Cons.prems(1) obtain extra x_data y_data where
    a: "(if tr then augment rot img else Inr []) = Inr extra"
    and c: "collect rot tr mnist = Inr (x_data, y_data)"
    and i: "imgs = tensor_of img # extra @ x_data"
    by (auto simp: s split: sum.splits)
  from Cons.prems(2) consider "e \<in> set (concat (tensor_of img))"
    | "e \<in> set (concat (concat extra))" | "e \<in> set (concat (concat x_data))"
    unfolding i by auto
  then show ?case
  proof cases
    case 1
    then show ?thesis by (rule tensor_of_range)
  next
    case 2
    show ?thesis
    proof (cases tr)
      case True
      with a have "augment rot img = Inr extra" by simp
      from augment_range [OF this 2] show ?thesis .
    next
      case False
      with a 2 show ?thesis by simp
    qed
  next
    case 3
    with c show ?thesis by (rule Cons.IH)
  qed
qed

lemma collect_train_fill:
  assumes "collect rot True mnist = Inr (imgs, ys)" and "imgs \<noteq> []"
  shows "Fin 255 \<in> set (concat (concat imgs))"
proof (cases mnist)
  case Nil
  with assms show ?thesis by simp
next
  case (Cons s rest)
  obtain img label where s: "s = (img, label)" by (cases s)
  from assms(1) obtain extra x_data y_data where
    a: "augment rot img = Inr extra" and i: "imgs = tensor_of img # extra @ x_data"
    by (auto simp: Cons s split: sum.splits)
  from a have "img_shifted_1 (tensor_of img) \<in> set extra"
    by (auto simp: augment_def Let_def split: if_splits)
  moreover have "Fin 255 \<in> set (concat (img_shifted_1 (tensor_of img)))"
    by (simp add: img_shifted_1_def fill_def)
  ultimately show ?thesis unfolding i by auto
qed

lemma min_max_scale_eq:
  "min_max_scale x = mmap (\<lambda>v. fdiv (fsub v (fmins (concat x))) (fmaxs (concat x))) x"
  by (simp add: min_max_scale_def Let_def mmap_def)

lemma concat_map_concat: "concat (map concat xss) = concat (concat xss)"
  by (induction xss) simp_all

lemma train_max:
  assumes c: "collect rot True mnist = Inr (imgs, ys)" and ne: "imgs \<noteq> []"
  shows "fmaxs (concat (map concat imgs)) = Fin 255"
proof -
  have rng: "\<forall>e\<in>set (concat (concat imgs)). \<exists>r. e = Fin r \<and> 0 \<le> r \<and> r \<le> 255"
    using collect_range [OF c] by blast
  from range_list [OF rng] obtain rs where rs: "concat (concat imgs) = map Fin rs"
    and b: "\<forall>r\<in>set rs. 0 \<le> r \<and> r \<le> 255" by blast
  from collect_train_fill [OF c ne] rs have m: "255 \<in> set rs" by auto
  then have "rs \<noteq> []" by auto
  from fmaxs_Fin [OF this] obtain mx where mx: "fmaxs (map Fin rs) = Fin mx" "mx \<in> set rs"
    "\<forall>r\<in>set rs. r \<le> mx" by blast
  from mx(3) m have "255 \<le> mx" by blast
  moreover from b mx(2) have "mx \<le> 255" by blast
  ultimately show ?thesis by (simp add: concat_map_concat rs mx(1))
qed

lemma scaled_unit:
  assumes c: "collect rot tr mnist = Inr (imgs, ys)"
    and nz: "fmaxs (concat (map concat imgs)) \<noteq> Fin 0"
  shows "list_all (list_all (\<lambda>e. fl_le (Fin 0) e \<and> fl_le e (Fin 1)))
           (mmap (\<lambda>v. fdiv (fsub v (fmins (concat (map concat imgs))))
                           (fmaxs (concat (map concat imgs)))) (map concat imgs))"
proof -
  have rng: "\<forall>e\<in>set (concat (map concat imgs)). \<exists>r. e = Fin r \<and> 0 \<le> r \<and> r \<le> 255"
    using collect_range [OF c] by (simp only: concat_map_concat) blast
  have "fl_le (Fin 0) (fdiv (fsub e (fmins (concat (map concat imgs))))
                           (fmaxs (concat (map concat imgs))))
      \<and> fl_le (fdiv (fsub e (fmins (concat (map concat imgs))))
                           (fmaxs (concat (map concat imgs)))) (Fin 1)"
    if "img \<in> set imgs" "e \<in> set (concat img)" for img e
  proof -
    from that have "e \<in> set (concat (map concat imgs))" by auto
    from min_max_scale_unit [OF rng nz this] show ?thesis .
  qed
  then show ?thesis by (simp add: mmap_def list_all_iff del: set_concat)
qed


lemma load_dataset_Inr:
  assumes "load_dataset rot tr mnist mean_std = Inr res"
  shows "\<exists>imgs ys ms. collect rot tr mnist = Inr (imgs, ys) \<and> imgs \<noteq> []
     \<and> (if tr then ms = std_mean (min_max_scale (map concat imgs))
            \<and> (\<exists>y_hot. res = Train_set (standardize ms (min_max_scale (map concat imgs))) ys y_hot ms)
         else mean_std = Some ms
            \<and> res = Test_set (standardize ms (min_max_scale (map concat imgs))) ys)"
proof -
  from assms obtain imgs ys where c: "collect rot tr mnist = Inr (imgs, ys)"
    by (auto simp: load_dataset_def split: sum.splits)
  from assms c have ne: "imgs \<noteq> []"
    by (auto simp: load_dataset_def split: if_splits)
  show ?thesis
  proof (cases tr)
    case True
    with assms c ne show ?thesis
      by (simp add: load_dataset_def Let_def split: if_splits sum.splits) blast
  next
    case False
    with assms c ne show ?thesis
      by (auto simp add: load_dataset_def Let_def split: if_splits option.splits)
  qed
qed

text \<open>
  Claim C2, as amended. \<open>load_dataset\<close> computes \<open>x_data.max()\<close> and \<open>x_data.min()\<close> on the
  tensor it has just collected (lines 119 to 121), in every call: each split is scaled with its
  own minimum and maximum, and nothing of the training set's minimum or maximum reaches the
  load of the test split. Whenever \<open>load_dataset\<close> returns, for the collected images \<open>imgs\<close>
  of the split being loaded (augmented ones included for the training split):

  \<^item> step (1) maps every entry \<open>v\<close> to \<open>(v - min) / max\<close>, with \<open>min\<close> and \<open>max\<close> taken over the
    flattened features of this split, the maximum read before the subtraction (the divisor is
    the maximum, not the range);
  \<^item> step (2) standardizes the result of step (1) with the pair computed on it (training
    split) or with the pair passed in (test split);
  \<^item> for the training split the maximum is 255, the fill value of the augmentation;
  \<^item> the values after step (1) lie in [0, 1] when the maximum of the split is not 0 (for an
    all-black split the step computes 0/0).
\<close>

theorem load_dataset_min_max:
  assumes "load_dataset rot tr mnist mean_std = Inr res"
  shows "\<exists>imgs ys ms scaled.
       collect rot tr mnist = Inr (imgs, ys)
     \<and> scaled = mmap (\<lambda>v. fdiv (fsub v (fmins (concat (map concat imgs))))
                                (fmaxs (concat (map concat imgs)))) (map concat imgs)
     \<and> (if tr then ms = std_mean scaled \<and> fmaxs (concat (map concat imgs)) = Fin 255
                  \<and> (\<exists>y_hot. res = Train_set (standardize ms scaled) ys y_hot ms)
         else mean_std = Some ms \<and> res = Test_set (standardize ms scaled) ys)
     \<and> (fmaxs (concat (map concat imgs)) \<noteq> Fin 0 \<longrightarrow>
          list_all (list_all (\<lambda>e. fl_le (Fin 0) e \<and> fl_le e (Fin 1))) scaled)"
proof -
  from load_dataset_Inr [OF assms] obtain imgs ys ms where
    c: "collect rot tr mnist = Inr (imgs, ys)" and ne: "imgs \<noteq> []"
    and r: "if tr then ms = std_mean (min_max_scale (map concat imgs))
            \<and> (\<exists>y_hot. res = Train_set (standardize ms (min_max_scale (map concat imgs))) ys y_hot ms)
         else mean_std = Some ms
            \<and> res = Test_set (standardize ms (min_max_scale (map concat imgs))) ys"
    by blast
  let ?scaled = "mmap (\<lambda>v. fdiv (fsub v (fmins (concat (map concat imgs))))
                                (fmaxs (concat (map concat imgs)))) (map concat imgs)"
  have s: "min_max_scale (map concat imgs) = ?scaled" by (rule min_max_scale_eq)
  have m: "fmaxs (concat (map concat imgs)) = Fin 255" if tr
    using that c ne by (auto intro: train_max)
  have u: "fmaxs (concat (map concat imgs)) \<noteq> Fin 0 \<longrightarrow>
          list_all (list_all (\<lambda>e. fl_le (Fin 0) e \<and> fl_le e (Fin 1))) ?scaled"
    using scaled_unit [OF c] by blast
  have "if tr then ms = std_mean ?scaled \<and> fmaxs (concat (map concat imgs)) = Fin 255
                  \<and> (\<exists>y_hot. res = Train_set (standardize ms ?scaled) ys y_hot ms)
         else mean_std = Some ms \<and> res = Test_set (standardize ms ?scaled) ys"
  proof (cases tr)
    case True
    with r m show ?thesis unfolding s by auto
  next
    case False
    with r show ?thesis unfolding s by simp
  qed
  with c u show ?thesis by blast
qed

lemma load_test_sample_1:
  "load_dataset (\<lambda>a img. img) False [([[100]], 0), ([[50]], 1)] (Some (Fin 1, Fin 0))
   = Inr (Test_set [[Fin (1/2)], [Fin 0]] [0, 1])"
  by (simp add: load_dataset_def tensor_of_def is_mat_def ncols_def min_max_scale_def
      standardize_def mmap_def fmaxs_def fmins_def fsub_def Let_def)

lemma load_test_sample_2:
  "load_dataset (\<lambda>a img. img) False [([[100]], 0), ([[200]], 1)] (Some (Fin 1, Fin 0))
   = Inr (Test_set [[Fin 0], [Fin (1/2)]] [0, 1])"
  by (simp add: load_dataset_def tensor_of_def is_mat_def ncols_def min_max_scale_def
      standardize_def mmap_def fmaxs_def fmins_def fsub_def Let_def)

text \<open>
  Counterexample to C2 as stated: two loads of a test split with the same pair passed in
  (standard deviation 1, mean 0, so that step (2) changes nothing). The raw image with the single
  pixel 100 is scaled to 1/2 in a split whose other image is 50 (minimum 50, maximum 100) and to
  0 in a split whose other image is 200 (minimum 100, maximum 200): the constants of step (1)
  come from the split being loaded, not from the training set.
\<close>

theorem load_dataset_min_max_counterexample:
  "load_dataset (\<lambda>a img. img) False [([[100]], 0), ([[50]], 1)] (Some (Fin 1, Fin 0))
   = Inr (Test_set [[Fin (1/2)], [Fin 0]] [0, 1])
   \<and> load_dataset (\<lambda>a img. img) False [([[100]], 0), ([[200]], 1)] (Some (Fin 1, Fin 0))
   = Inr (Test_set [[Fin 0], [Fin (1/2)]] [0, 1])"
  by (simp only: load_test_sample_1 load_test_sample_2)

lemma is_mat_ncols: "is_mat 28 c m \<Longrightarrow> ncols m = c \<and> length (hd m) = c \<and> length m = 28"
  by (cases m) (auto simp: is_mat_def ncols_def)

lemma is_mat_concat_ne: "is_mat 28 28 m \<Longrightarrow> concat m \<noteq> []"
  by (cases m) (auto simp: is_mat_def)

lemma load_train_returns:
  assumes i: "is_mat 28 28 img" and r: "is_mat 28 28 (rot 5 img)" "is_mat 28 28 (rot (- 5) img)"
  shows "\<exists>x y_hot ms. load_dataset rot True [(img, label)] None
           = Inr (Train_set x (replicate 7 label) y_hot ms)"
proof -
  let ?t = "tensor_of img"
  let ?imgs = "[?t, img_shifted_1 ?t, img_shifted_2 ?t, img_shifted_3 ?t, img_shifted_4 ?t,
                tensor_of (rot 5 img), tensor_of (rot (- 5) img)]"
  have c: "collect rot True [(img, label)] = Inr (?imgs, replicate 7 label)"
    using i by (simp add: augment_def Let_def eval_nat_numeral)
  from i have t: "is_mat 28 28 ?t" by (rule is_mat_tensor_of)
  from is_mat_ncols [OF t] have h: "length (hd ?imgs) = 28" "ncols (hd ?imgs) = 28"
    by simp_all
  have s: "list_all (is_mat 28 28) ?imgs"
    using t shifted_shapes [OF t] r by (simp add: is_mat_tensor_of)
  have n: "concat (map concat ?imgs) \<noteq> []"
    using is_mat_concat_ne [OF t] by simp
  have o: "\<exists>y_hot. to_one_hot (replicate 7 label) = Inr y_hot"
    by (simp add: to_one_hot_def Let_def)
  then obtain y_hot where o: "to_one_hot (replicate 7 label) = Inr y_hot" ..
  have g: "list_all (is_mat (length (hd ?imgs)) (ncols (hd ?imgs))) ?imgs"
    using s by (simp only: h)
  have "load_dataset rot True [(img, label)] None
      = Inr (Train_set (standardize (std_mean (min_max_scale (map concat ?imgs)))
                          (min_max_scale (map concat ?imgs)))
               (replicate 7 label) y_hot (std_mean (min_max_scale (map concat ?imgs))))"
    unfolding load_dataset_def c using g n o by (simp add: Let_def)
  then show ?thesis by blast
qed

lemma zero_image_mat: "is_mat 28 28 (replicate 28 (replicate 28 (0 :: 8 word)))"
  by (simp add: is_mat_def list_all_length)

text \<open>
  Witness for C2: the first test split above, and a training split of one black 28 by 28
  image (identity in place of the rotation), whose maximum after augmentation is 255.
\<close>

theorem load_dataset_min_max_witness:
  "load_dataset (\<lambda>a img. img) False [([[100]], 0), ([[50]], 1)] (Some (Fin 1, Fin 0))
   = Inr (Test_set [[Fin (1/2)], [Fin 0]] [0, 1])
   \<and> fmins [Fin 100, Fin 50] = Fin 50 \<and> fmaxs [Fin 100, Fin 50] = Fin 100
   \<and> standardize (Fin 1, Fin 0)
        (mmap (\<lambda>v. fdiv (fsub v (fmins [Fin 100, Fin 50])) (fmaxs [Fin 100, Fin 50]))
              [[Fin 100], [Fin 50]]) = [[Fin (1/2)], [Fin 0]]
   \<and> list_all (list_all (\<lambda>e. fl_le (Fin 0) e \<and> fl_le e (Fin 1)))
        (mmap (\<lambda>v. fdiv (fsub v (fmins [Fin 100, Fin 50])) (fmaxs [Fin 100, Fin 50]))
              [[Fin 100], [Fin 50]])
   \<and> (\<exists>imgs ys x y_hot ms.
         collect (\<lambda>a img. img) True [(replicate 28 (replicate 28 0), 3)] = Inr (imgs, ys)
       \<and> load_dataset (\<lambda>a img. img) True [(replicate 28 (replicate 28 0), 3)] None
           = Inr (Train_set x ys y_hot ms)
       \<and> fmaxs (concat (map concat imgs)) = Fin 255
       \<and> list_all (list_all (\<lambda>e. fl_le (Fin 0) e \<and> fl_le e (Fin 1)))
           (mmap (\<lambda>v. fdiv (fsub v (fmins (concat (map concat imgs))))
                                (fmaxs (concat (map concat imgs)))) (map concat imgs)))"
proof -
  have c: "collect (\<lambda>a img. img) False [([[100]], 0), ([[50]], 1)]
           = Inr ([[[Fin 100]], [[Fin 50]]], [0, 1])"
    by (simp add: tensor_of_def)
  from load_dataset_min_max [OF load_test_sample_1] obtain imgs ys ms scaled where
    "collect (\<lambda>a img. img) False [([[100]], 0), ([[50]], 1)] = Inr (imgs, ys)"
    and s: "scaled = mmap (\<lambda>v. fdiv (fsub v (fmins (concat (map concat imgs))))
                                (fmaxs (concat (map concat imgs)))) (map concat imgs)"
    and r: "Some (Fin 1, Fin 0) = Some ms" "Test_set [[Fin (1/2)], [Fin 0]] [0, 1]
              = Test_set (standardize ms scaled) ys"
    and u: "fmaxs (concat (map concat imgs)) \<noteq> Fin 0 \<longrightarrow>
          list_all (list_all (\<lambda>e. fl_le (Fin 0) e \<and> fl_le e (Fin 1))) scaled"
    by auto
  with c have i: "imgs = [[[Fin 100]], [[Fin 50]]]" by simp
  have mx: "fmaxs [Fin 100, Fin 50] = Fin 100" and mn: "fmins [Fin 100, Fin 50] = Fin 50"
    by (simp_all add: fmaxs_def fmins_def)
  from s have s': "scaled = mmap (\<lambda>v. fdiv (fsub v (fmins [Fin 100, Fin 50]))
      (fmaxs [Fin 100, Fin 50])) [[Fin 100], [Fin 50]]"
    unfolding i by simp
  from u have "list_all (list_all (\<lambda>e. fl_le (Fin 0) e \<and> fl_le e (Fin 1))) scaled"
    unfolding i by (simp add: mx)
  moreover from r have "standardize (Fin 1, Fin 0) scaled = [[Fin (1/2)], [Fin 0]]" by simp
  ultimately have test: "load_dataset (\<lambda>a img. img) False [([[100]], 0), ([[50]], 1)] (Some (Fin 1, Fin 0))
   = Inr (Test_set [[Fin (1/2)], [Fin 0]] [0, 1])
   \<and> fmins [Fin 100, Fin 50] = Fin 50 \<and> fmaxs [Fin 100, Fin 50] = Fin 100
   \<and> standardize (Fin 1, Fin 0)
        (mmap (\<lambda>v. fdiv (fsub v (fmins [Fin 100, Fin 50])) (fmaxs [Fin 100, Fin 50]))
              [[Fin 100], [Fin 50]]) = [[Fin (1/2)], [Fin 0]]
   \<and> list_all (list_all (\<lambda>e. fl_le (Fin 0) e \<and> fl_le e (Fin 1)))
        (mmap (\<lambda>v. fdiv (fsub v (fmins [Fin 100, Fin 50])) (fmaxs [Fin 100, Fin 50]))
              [[Fin 100], [Fin 50]])"
    unfolding s' using load_test_sample_1 mx mn by blast
  from load_train_returns [of "replicate 28 (replicate 28 0)" "\<lambda>a img. img" 3]
  obtain x y_hot ms where
    l: "load_dataset (\<lambda>a img. img) True [(replicate 28 (replicate 28 0), 3)] None
        = Inr (Train_set x (replicate 7 3) y_hot ms)"
    using zero_image_mat by auto
  from load_dataset_min_max [OF l] obtain imgs ys where
    "collect (\<lambda>a img. img) True [(replicate 28 (replicate 28 0), 3)] = Inr (imgs, ys)"
    "fmaxs (concat (map concat imgs)) = Fin 255"
    "ys = replicate 7 3"
    "list_all (list_all (\<lambda>e. fl_le (Fin 0) e \<and> fl_le e (Fin 1)))
           (mmap (\<lambda>v. fdiv (fsub v (fmins (concat (map concat imgs))))
                                (fmaxs (concat (map concat imgs)))) (map concat imgs))"
    by auto
  with l have "\<exists>imgs ys x y_hot ms.
         collect (\<lambda>a img. img) True [(replicate 28 (replicate 28 0), 3)] = Inr (imgs, ys)
       \<and> load_dataset (\<lambda>a img. img) True [(replicate 28 (replicate 28 0), 3)] None
           = Inr (Train_set x ys y_hot ms)
       \<and> fmaxs (concat (map concat imgs)) = Fin 255
       \<and> list_all (list_all (\<lambda>e. fl_le (Fin 0) e \<and> fl_le e (Fin 1)))
           (mmap (\<lambda>v. fdiv (fsub v (fmins (concat (map concat imgs))))
                                (fmaxs (concat (map concat imgs)))) (map concat imgs))"
    by blast
  with test show ?thesis by blast
qed

section \<open>Properties of the shared normalization parameters\<close>











section \<open>Properties of the evaluation\<close>






















end
